theory Spec2Isabelle
  imports Complex_Main "HOL-Library.Log_Nat" "HOL-Library.Word"
begin

section \<open>Strings\<close>

text \<open>
  Go strings are byte sequences; they are modelled as \<^typ>\<open>string\<close>.  \<open>ToLower\<close>,
  \<open>ToUpper\<close> and \<open>TrimSpace\<close> are \<open>strings.ToLower\<close>, \<open>strings.ToUpper\<close> and
  \<open>strings.TrimSpace\<close> on ASCII text: the letters \<open>A\<close> to \<open>Z\<close> and \<open>a\<close> to \<open>z\<close> are
  folded, and the white space is tab, line feed, vertical tab, form feed, carriage return
  and space.  On text outside ASCII Go also folds the other letters of Unicode and trims
  the other Unicode spaces; these functions leave such bytes as they are, and every
  evaluation below is on ASCII text.
\<close>

definition lowerChar :: "char \<Rightarrow> char" where
  "lowerChar c =
     (let n = (of_char c :: nat) in if 65 \<le> n \<and> n \<le> 90 then char_of (n + 32) else c)"

definition upperChar :: "char \<Rightarrow> char" where
  "upperChar c =
     (let n = (of_char c :: nat) in if 97 \<le> n \<and> n \<le> 122 then char_of (n - 32) else c)"

definition ToLower :: "string \<Rightarrow> string" where
  "ToLower s = map lowerChar s"

definition ToUpper :: "string \<Rightarrow> string" where
  "ToUpper s = map upperChar s"

fun HasPrefix :: "string \<Rightarrow> string \<Rightarrow> bool" where
  "HasPrefix s [] = True"
| "HasPrefix [] (p # ps) = False"
| "HasPrefix (c # cs) (p # ps) = (c = p \<and> HasPrefix cs ps)"

definition HasSuffix :: "string \<Rightarrow> string \<Rightarrow> bool" where
  "HasSuffix s suf = HasPrefix (rev s) (rev suf)"

definition TrimSuffix :: "string \<Rightarrow> string \<Rightarrow> string" where
  "TrimSuffix s suf = (if HasSuffix s suf then take (length s - length suf) s else s)"

fun Contains :: "string \<Rightarrow> string \<Rightarrow> bool" where
  "Contains [] sub = (sub = [])"
| "Contains (c # cs) sub = (HasPrefix (c # cs) sub \<or> Contains cs sub)"

definition isSpace :: "char \<Rightarrow> bool" where
  "isSpace c = (let n = (of_char c :: nat) in (9 \<le> n \<and> n \<le> 13) \<or> n = 32)"

definition TrimSpace :: "string \<Rightarrow> string" where
  "TrimSpace s = rev (dropWhile isSpace (rev (dropWhile isSpace s)))"

definition isDigit :: "char \<Rightarrow> bool" where
  "isDigit c = (let n = (of_char c :: nat) in 48 \<le> n \<and> n \<le> 57)"

definition digitsValue :: "string \<Rightarrow> nat" where
  "digitsValue ds = foldl (\<lambda>a c. 10 * a + (of_char c - 48)) 0 ds"

type_synonym byte = "8 word"

section \<open>The type float64\<close>

text \<open>
  A finite \<open>float64\<close> is the rational number it denotes.  An arithmetic operation of the
  source is the exact operation followed by \<open>f64\<close>, the rounding of IEEE 754 binary64 to
  the nearest value with a 53-bit significand, ties to the even significand; every
  operation is rounded on its own.  The exponent range is not bounded here: overflow to an
  infinity, NaN and the subnormal numbers are outside the model.
\<close>

type_synonym float64 = rat

definition rne :: "rat \<Rightarrow> int" where
  "rne x =
     (let f = \<lfloor>x\<rfloor>; d = x - of_int f
      in if d < 1/2 then f else if 1/2 < d then f + 1 else if even f then f else f + 1)"

definition ilog2 :: "rat \<Rightarrow> int" where
  "ilog2 x =
     (let (p, q) = quotient_of x; e0 = bitlen p - bitlen q
      in if 2 powi e0 \<le> x then e0 else e0 - 1)"

definition ulp :: "rat \<Rightarrow> rat" where
  "ulp x = 2 powi (ilog2 \<bar>x\<bar> - 52)"

definition f64 :: "rat \<Rightarrow> float64" where
  "f64 x = (if x = 0 then 0 else sgn x * of_int (rne (\<bar>x\<bar> / ulp x)) * ulp x)"

text \<open>
  The conversion \<open>int64(x)\<close> (also \<open>int(x)\<close> and \<open>time.Duration(x)\<close>) of a \<open>float64\<close>:
  the fraction is discarded, towards zero.  Beyond the range of \<open>int64\<close> the result of the
  conversion is implementation-dependent in Go; here it stays the exact integer.
\<close>

definition toInt64 :: "float64 \<Rightarrow> int" where
  "toInt64 x = (if 0 \<le> x then \<lfloor>x\<rfloor> else \<lceil>x\<rceil>)"

section \<open>Sync strategies\<close>

text \<open>
  A \<open>storage.Object\<close> as far as the strategies read it: the URL with its remote/local tag,
  the size, the modification time (an instant, in nanoseconds) and the entity tag.
\<close>

datatype url = RemoteURL string | LocalURL string

fun IsRemote :: "url \<Rightarrow> bool" where
  "IsRemote (RemoteURL p) = True"
| "IsRemote (LocalURL p) = False"

fun url_String :: "url \<Rightarrow> string" where
  "url_String (RemoteURL p) = p"
| "url_String (LocalURL p) = p"

record Object =
  URL :: url
  Size :: int
  ModTime :: int
  Etag :: string

text \<open>The sentinel errors of package \<open>error\<close> that a strategy returns to say "skip".\<close>

datatype SkipReason =
    ErrObjectSizesMatch
  | ErrObjectIsNewerAndSizesMatch
  | ErrObjectEtagsMatch

datatype SyncStrategy = SizeOnlyStrategy | HashStrategy | SizeAndModificationStrategy

definition NewStrategy :: "bool \<Rightarrow> bool \<Rightarrow> SyncStrategy" where
  "NewStrategy sizeOnly hashOnly =
     (if sizeOnly then SizeOnlyStrategy
      else if hashOnly then HashStrategy
      else SizeAndModificationStrategy)"

definition SizeOnly_ShouldSync :: "Object \<Rightarrow> Object \<Rightarrow> SkipReason option" where
  "SizeOnly_ShouldSync srcObj dstObj =
     (if Size srcObj = Size dstObj then Some ErrObjectSizesMatch else None)"

definition SizeAndModification_ShouldSync :: "Object \<Rightarrow> Object \<Rightarrow> SkipReason option" where
  "SizeAndModification_ShouldSync srcObj dstObj =
     (if ModTime dstObj < ModTime srcObj then None
      else if Size srcObj \<noteq> Size dstObj then None
      else Some ErrObjectIsNewerAndSizesMatch)"

definition isMultipartETag :: "string \<Rightarrow> bool" where
  "isMultipartETag etag = Contains etag ''-''"

text \<open>
  What \<open>getHash\<close> sees of the local file system: opening the file at a path fails, or the
  file opens and reading it fails, or the whole content is read.  The MD5 digest in
  hexadecimal (\<open>crypto/md5\<close>, \<open>encoding/hex\<close>) is a parameter.
\<close>

datatype file_read = OpenFails | ReadFails | FileContent "byte list"

definition getHash :: "(string \<Rightarrow> file_read) \<Rightarrow> (byte list \<Rightarrow> string) \<Rightarrow> Object \<Rightarrow> string" where
  "getHash fs md5hex obj =
     (if IsRemote (URL obj) \<or> Etag obj \<noteq> [] then Etag obj
      else (case fs (url_String (URL obj)) of
              OpenFails \<Rightarrow> []
            | ReadFails \<Rightarrow> []
            | FileContent bs \<Rightarrow> md5hex bs))"

definition Hash_ShouldSync ::
  "(string \<Rightarrow> file_read) \<Rightarrow> (byte list \<Rightarrow> string) \<Rightarrow> Object \<Rightarrow> Object \<Rightarrow> SkipReason option" where
  "Hash_ShouldSync fs md5hex srcObj dstObj =
     (if Size srcObj \<noteq> Size dstObj then None
      else
        let srcHash = getHash fs md5hex srcObj;
            dstHash = getHash fs md5hex dstObj
        in if isMultipartETag srcHash \<or> isMultipartETag dstHash then None
           else if srcHash = dstHash then Some ErrObjectEtagsMatch
           else None)"

definition ShouldSync ::
  "(string \<Rightarrow> file_read) \<Rightarrow> (byte list \<Rightarrow> string) \<Rightarrow> SyncStrategy \<Rightarrow> Object \<Rightarrow> Object
     \<Rightarrow> SkipReason option" where
  "ShouldSync fs md5hex strategy srcObj dstObj =
     (case strategy of
        SizeOnlyStrategy \<Rightarrow> SizeOnly_ShouldSync srcObj dstObj
      | HashStrategy \<Rightarrow> Hash_ShouldSync fs md5hex srcObj dstObj
      | SizeAndModificationStrategy \<Rightarrow> SizeAndModification_ShouldSync srcObj dstObj)"

section \<open>Decimal formatting\<close>

text \<open>The verb \<open>%d\<close> of \<open>fmt\<close>: an integer in decimal, with a minus sign when negative.\<close>

fun digits10 :: "nat \<Rightarrow> string" where
  "digits10 n =
     (if n < 10 then [char_of (48 + n)]
      else digits10 (n div 10) @ [char_of (48 + n mod 10)])"

declare digits10.simps [simp del]

definition Sprint_d :: "int \<Rightarrow> string" where
  "Sprint_d i = (if i < 0 then CHR ''-'' # digits10 (nat (- i)) else digits10 (nat i))"

section \<open>Sync planner\<close>

text \<open>
  Modelled from the spec: the planner (\<open>Sync.planRun\<close>) and its plan items are not among the
  source files, only tests of the planner are.  Section 3: a plan item is a tagged union,
  \<open>Copy{src, dst}\<close> or \<open>Delete{url}\<close>.
\<close>

datatype SyncPlanItem = Copy url url | Delete url

fun isDelete :: "SyncPlanItem \<Rightarrow> bool" where
  "isDelete (Delete u) = True"
| "isDelete (Copy s d) = False"

text \<open>
  Modelled from the spec: the error of section 4.G,
  "refusing to delete N files; more than max-delete limit of M", with the count \<open>N\<close> and
  the limit \<open>M\<close> in decimal (the messages that \<open>TestMaxDeleteLogic\<close> lists have this form).
\<close>

definition refusalMessage :: "int \<Rightarrow> int \<Rightarrow> string" where
  "refusalMessage n m =
     ''refusing to delete '' @ Sprint_d n @ '' files; more than max-delete limit of '' @ Sprint_d m"

text \<open>
  Modelled from the spec: section 4.G on the destination-only entries.  They are dropped
  when \<open>delete\<close> is false; otherwise they are buffered and counted after the other streams
  have drained; if \<open>maxDelete \<ge> 0 \<and> count > maxDelete\<close> nothing is emitted and a single error
  is surfaced; otherwise one \<open>Delete\<close> is emitted per entry.  The result is the plan items
  and the errors surfaced.
\<close>

definition planDeletes :: "bool \<Rightarrow> int \<Rightarrow> url list \<Rightarrow> SyncPlanItem list \<times> string list" where
  "planDeletes delete maxDelete onlyDest =
     (if delete then
        let count = int (length onlyDest)
        in if 0 \<le> maxDelete \<and> maxDelete < count
           then ([], [refusalMessage count maxDelete])
           else (map Delete onlyDest, [])
      else ([], []))"

text \<open>
  The decision as \<open>TestMaxDeleteLogic\<close> computes it in its loop ("the logic that would be
  used in planRun"), from the limit and the number of files to delete.
\<close>

definition shouldDelete :: "int \<Rightarrow> int \<Rightarrow> bool" where
  "shouldDelete maxDelete filesToDelete =
     (filesToDelete = 0 \<or> (maxDelete < 0 \<or> filesToDelete \<le> maxDelete))"

text \<open>
  Modelled from the spec: section 4.G for the other two streams.  A source-only entry (its
  URL and its key relative to the source root) gives a \<open>Copy\<close> to the destination root
  joined with the key; a common pair gives a \<open>Copy\<close> when the strategy answers nil and is
  dropped otherwise.  The result is the plan items and the errors surfaced.
\<close>

definition planRun ::
  "(Object \<Rightarrow> Object \<Rightarrow> SkipReason option) \<Rightarrow> (string \<Rightarrow> url) \<Rightarrow> (url \<times> string) list \<Rightarrow> url list
     \<Rightarrow> (Object \<times> Object) list \<Rightarrow> bool \<Rightarrow> int \<Rightarrow> SyncPlanItem list \<times> string list" where
  "planRun strategy joinDest onlySource onlyDest commonPairs delete maxDelete =
     (let fromSource = map (\<lambda>(src, key). Copy src (joinDest key)) onlySource;
          fromCommon = map (\<lambda>(s, d). Copy (URL s) (URL d))
                         (filter (\<lambda>(s, d). strategy s d = None) commonPairs);
          deletes = planDeletes delete maxDelete onlyDest
      in (fromSource @ fromCommon @ fst deletes, snd deletes))"

section \<open>Retry controller\<close>

text \<open>
  A Go \<open>error\<close> value: one with a plain message (\<open>errors.New\<close>, or \<open>fmt.Errorf\<close> without
  \<open>%w\<close>), one that \<open>fmt.Errorf("<prefix>%w", err)\<close> wraps behind a prefix, or the wrapper
  that \<open>WithRetry\<close> builds with
  \<open>fmt.Errorf("operation failed after %d retries: %w", n, lastErr)\<close>.  The nil error is
  \<open>None\<close>.
\<close>

datatype error = New string | Errorf string error | RetriesExhausted int "error option"

fun Error :: "error \<Rightarrow> string" where
  "Error (New msg) = msg"
| "Error (Errorf prefix e) = prefix @ Error e"
| "Error (RetriesExhausted n None) =
     ''operation failed after '' @ Sprint_d n @ '' retries: %!w(<nil>)''"
| "Error (RetriesExhausted n (Some e)) =
     ''operation failed after '' @ Sprint_d n @ '' retries: '' @ Error e"

text \<open>A \<open>time.Duration\<close> is a number of nanoseconds.\<close>

record RetryConfig =
  MaxRetries :: int
  BaseDelay :: int
  MaxDelay :: int
  BackoffExponent :: float64
  Jitter :: bool

definition DefaultClientCopyRetryConfig :: RetryConfig where
  "DefaultClientCopyRetryConfig =
     \<lparr>MaxRetries = 3, BaseDelay = 1000000000, MaxDelay = 30000000000,
      BackoffExponent = 2, Jitter = True\<rparr>"

definition retryablePatterns :: "string list" where
  "retryablePatterns =
     [''connection'', ''timeout'', ''temporary failure'', ''service unavailable'',
      ''internal error'', ''slow down'', ''throttling'', ''rate limit'',
      ''too many requests'', ''request timeout'', ''dial tcp'', ''connection reset'',
      ''connection refused'', ''no such host'', ''i/o timeout'',
      ''context deadline exceeded'', ''eof'', ''unexpected eof'']"

definition awsRetryablePatterns :: "string list" where
  "awsRetryablePatterns =
     [''provisionedthroughputexceeded'', ''throttlingexception'', ''requestlimitexceeded'',
      ''serviceunavailable'', ''internalerror'', ''slowdown'', ''requesttimeout'']"

text \<open>
  \<open>IsRetryableError\<close>.  \<open>strings.ToLower\<close> belongs to the standard library and folds the
  letters of all of Unicode; it is the parameter \<open>toLower\<close>, so that what is proved of the
  classifier and of the loop holds for Go's own function.  Evaluations instantiate it with
  \<open>ToLower\<close>, and only on ASCII messages, where \<open>strings.ToLower\<close> changes the letters
  \<open>A\<close> to \<open>Z\<close> and nothing else.
\<close>

definition IsRetryableError :: "(string \<Rightarrow> string) \<Rightarrow> error option \<Rightarrow> bool" where
  "IsRetryableError toLower err =
     (case err of
        None \<Rightarrow> False
      | Some e \<Rightarrow>
          let errStr = toLower (Error e)
          in if list_ex (Contains errStr) retryablePatterns then True
             else if list_ex (Contains errStr) awsRetryablePatterns then True
             else False)"

text \<open>
  The loop of \<open>WithRetry\<close>.  The operation is a closure called once per attempt:
  \<open>operation k\<close> is what its call at attempt \<open>k\<close> returns.  \<open>wait k\<close> is the outcome of the
  \<open>select\<close> after a failed attempt \<open>k\<close>: \<open>Some e\<close> when the context is done first (\<open>e\<close> is
  \<open>ctx.Err()\<close>), \<open>None\<close> when the timer fires first.  The debug log lines and the length of
  the delay do not influence the returned error and are left out.
\<close>

definition exhausted :: "RetryConfig \<Rightarrow> error option \<Rightarrow> error option" where
  "exhausted config lastErr = Some (RetriesExhausted (MaxRetries config + 1) lastErr)"

function WithRetry_loop ::
  "(string \<Rightarrow> string) \<Rightarrow> (nat \<Rightarrow> error option) \<Rightarrow> (nat \<Rightarrow> error option) \<Rightarrow> RetryConfig \<Rightarrow> int
     \<Rightarrow> error option \<Rightarrow> error option" where
  "WithRetry_loop toLower operation wait config attempt lastErr =
     (if attempt \<le> MaxRetries config then
        (case operation (nat attempt) of
           None \<Rightarrow> None
         | Some err \<Rightarrow>
             if attempt = MaxRetries config then exhausted config (Some err)
             else if \<not> IsRetryableError toLower (Some err) then Some err
             else (case wait (nat attempt) of
                     Some ctxErr \<Rightarrow> Some ctxErr
                   | None \<Rightarrow>
                       WithRetry_loop toLower operation wait config (attempt + 1) (Some err)))
      else exhausted config lastErr)"
  by pat_completeness auto
termination
  by (relation "measure (\<lambda>(toLower, operation, wait, config, attempt, lastErr).
        nat (MaxRetries config + 1 - attempt))") auto

declare WithRetry_loop.simps [simp del]

definition WithRetry ::
  "(string \<Rightarrow> string) \<Rightarrow> (nat \<Rightarrow> error option) \<Rightarrow> (nat \<Rightarrow> error option) \<Rightarrow> RetryConfig
     \<Rightarrow> error option" where
  "WithRetry toLower operation wait config =
     WithRetry_loop toLower operation wait config 0 None"

text \<open>
  \<open>RetryConfig.CalculateDelay\<close>.  \<open>pow\<close> is \<open>math.Pow\<close> and \<open>rnd\<close> is the value that
  \<open>rand.Float64()\<close> returns, a \<open>float64\<close> in \<open>[0, 1)\<close>; both come from the standard library
  and are parameters.  The constants \<open>0.25\<close>, \<open>0.5\<close> and \<open>2\<close> are \<open>float64\<close> values as
  they stand.  \<open>nominal\<close> is the product the source first stores in \<open>delay\<close>;
  \<open>CalculateDelay_float\<close> is \<open>delay\<close> when the function reaches its last line, where
  \<open>time.Duration(delay)\<close> converts it to whole nanoseconds.
\<close>

definition nominal :: "(float64 \<Rightarrow> float64 \<Rightarrow> float64) \<Rightarrow> RetryConfig \<Rightarrow> int \<Rightarrow> float64" where
  "nominal pow rc attempt =
     f64 (f64 (of_int (BaseDelay rc)) * pow (BackoffExponent rc) (f64 (of_int attempt)))"

definition CalculateDelay_float ::
  "(float64 \<Rightarrow> float64 \<Rightarrow> float64) \<Rightarrow> float64 \<Rightarrow> RetryConfig \<Rightarrow> int \<Rightarrow> float64" where
  "CalculateDelay_float pow rnd rc attempt =
     (let delay = nominal pow rc attempt;
          delay = (if Jitter rc \<and> 0 < delay then
                     let jitterRange = f64 (delay * (1/4));
                         jitter = f64 (f64 (f64 (rnd - 1/2) * 2) * jitterRange)
                     in f64 (delay + jitter)
                   else delay);
          delay = (if delay < 0 then f64 (of_int (BaseDelay rc)) else delay);
          delay = (if f64 (of_int (MaxDelay rc)) < delay then f64 (of_int (MaxDelay rc))
                   else delay)
      in delay)"

definition CalculateDelay ::
  "(float64 \<Rightarrow> float64 \<Rightarrow> float64) \<Rightarrow> float64 \<Rightarrow> RetryConfig \<Rightarrow> int \<Rightarrow> int" where
  "CalculateDelay pow rnd rc attempt =
     (if attempt < 0 then 0 else toInt64 (CalculateDelay_float pow rnd rc attempt))"

text \<open>
  \<open>math.Pow\<close> at an exponent that is a whole number \<open>\<ge> 0\<close>, taken as the power rounded to
  \<open>float64\<close>; it is Go's result wherever the power is a \<open>float64\<close> itself, as for a power
  of two.  It instantiates the parameter \<open>pow\<close> in evaluations.
\<close>

definition Pow_whole :: "float64 \<Rightarrow> float64 \<Rightarrow> float64" where
  "Pow_whole x y = f64 (x ^ nat (toInt64 y))"

section \<open>Disk-space guard\<close>

text \<open>
  What the guard sees of the platform: \<open>runtime.GOOS\<close>; whether \<open>os.Stat\<close> succeeds on a
  path and finds a directory; \<open>filepath.Dir\<close>; \<open>os.TempDir()\<close>; whether \<open>os.CreateTemp\<close>
  in a directory fails; and what the platform's file-system statistics report for the
  volume of a path, the free bytes available to the caller or the failure of the call
  (\<open>GetDiskFreeSpaceExW\<close> on Windows, \<open>statfs\<close> on Unix).
\<close>

record os_env =
  GOOS :: string
  IsDir :: "string \<Rightarrow> bool"
  filepath_Dir :: "string \<Rightarrow> string"
  TempDir :: string
  CreateTemp :: "string \<Rightarrow> error option"
  FreeBytesAvailable :: "string \<Rightarrow> error + 64 word"

text \<open>
  The loop that walks up to an existing directory.  With \<open>filepath.Dir\<close> a parameter the
  loop need not end; \<open>None\<close> stands for a walk that never ends.
\<close>

partial_function (option) findExistingDir :: "os_env \<Rightarrow> string \<Rightarrow> string option" where
  "findExistingDir env checkPath =
     (if checkPath \<noteq> ''/'' \<and> checkPath \<noteq> ''.'' \<and> checkPath \<noteq> '''' then
        (if IsDir env checkPath then Some checkPath
         else if GOOS env = ''windows'' \<and> length (filepath_Dir env checkPath) \<le> 3
           then Some (filepath_Dir env checkPath)
           else findExistingDir env (filepath_Dir env checkPath))
      else Some checkPath)"

definition getFallbackDiskSpace :: "os_env \<Rightarrow> string \<Rightarrow> error + int" where
  "getFallbackDiskSpace env path =
     (case CreateTemp env path of
        Some err \<Rightarrow> Inl (Errorf ''cannot write to disk: '' err)
      | None \<Rightarrow> Inr (1 * 1024 * 1024 * 1024))"

definition getUnixDiskSpace :: "os_env \<Rightarrow> string \<Rightarrow> error + int" where
  "getUnixDiskSpace env path = getFallbackDiskSpace env path"

definition getWindowsDiskSpace :: "os_env \<Rightarrow> string \<Rightarrow> error + int" where
  "getWindowsDiskSpace env path =
     (if GOOS env \<noteq> ''windows''
      then Inl (New (''Windows disk space check not supported on '' @ GOOS env))
      else if char_of (0::nat) \<in> set path
      then Inl (Errorf ''failed to convert path to UTF16: '' (New ''invalid argument''))
      else (case FreeBytesAvailable env path of
              Inl err \<Rightarrow> Inl (Errorf ''GetDiskFreeSpaceEx failed: '' err)
            | Inr freeBytesAvailable \<Rightarrow> Inr (sint freeBytesAvailable)))"

text \<open>
  \<open>getAvailableDiskSpace\<close> as in \<open>command/disk_space_validator.go\<close>: the probe file, then the
  constant of 10 GiB.
\<close>

definition getAvailableDiskSpace :: "os_env \<Rightarrow> string \<Rightarrow> (error + int) option" where
  "getAvailableDiskSpace env path =
     (case findExistingDir env path of
        None \<Rightarrow> None
      | Some found \<Rightarrow>
          let checkPath = (if found = '''' then TempDir env else found)
          in (case CreateTemp env checkPath of
                Some err \<Rightarrow> Some (Inl (Errorf ''cannot write to disk: '' err))
              | None \<Rightarrow> Some (Inr (10 * 1024 * 1024 * 1024))))"

text \<open>
  \<open>getAvailableDiskSpace\<close> as in the repository's second copy of the disk-space
  validator (the one with \<open>getWindowsDiskSpace\<close>, \<open>getUnixDiskSpace\<close> and
  \<open>getFallbackDiskSpace\<close>): the switch on \<open>runtime.GOOS\<close>.
\<close>

definition getAvailableDiskSpace_GOOS :: "os_env \<Rightarrow> string \<Rightarrow> (error + int) option" where
  "getAvailableDiskSpace_GOOS env path =
     (case findExistingDir env path of
        None \<Rightarrow> None
      | Some found \<Rightarrow>
          let checkPath = (if found = '''' then TempDir env else found)
          in if GOOS env = ''windows'' then Some (getWindowsDiskSpace env checkPath)
             else if GOOS env \<in> set [''darwin'', ''linux'', ''freebsd'', ''openbsd'', ''netbsd'']
             then Some (getUnixDiskSpace env checkPath)
             else Some (getFallbackDiskSpace env checkPath))"

text \<open>
  \<open>Copy.validateDiskSpace\<close> (the same in both copies of the file).  \<open>newClient\<close> is the
  error of \<open>storage.NewRemoteClient\<close>, \<open>stat\<close> is what \<open>srcClient.Stat\<close> returns (the
  object's size, or an error), \<open>free\<close> is what \<open>getAvailableDiskSpace(tempDir)\<close> returns.
  The constant \<open>1.2\<close> is the \<open>float64\<close> nearest to \<open>6/5\<close>.
\<close>

definition requiredSpace :: "int \<Rightarrow> int" where
  "requiredSpace objSize = toInt64 (f64 (f64 (of_int objSize) * f64 (6/5)))"

definition validateDiskSpace :: "error option \<Rightarrow> error + int \<Rightarrow> error + int \<Rightarrow> error option" where
  "validateDiskSpace newClient stat free =
     (case newClient of
        Some err \<Rightarrow> Some (Errorf ''failed to create source client: '' err)
      | None \<Rightarrow>
         (case stat of
            Inl err \<Rightarrow> Some (Errorf ''failed to get source object info: '' err)
          | Inr objSize \<Rightarrow>
             (case free of
                Inl err \<Rightarrow> Some (Errorf ''failed to check disk space: '' err)
              | Inr freeBytes \<Rightarrow>
                  if freeBytes < requiredSpace objSize
                  then Some (New (''insufficient disk space: need ''
                         @ Sprint_d (requiredSpace objSize) @ '' bytes, have ''
                         @ Sprint_d freeBytes @ '' bytes available''))
                  else None)))"

section \<open>Bandwidth limiter\<close>

text \<open>
  \<open>strconv.ParseFloat(s, 64)\<close> belongs to the standard library.  It is modelled on the plain
  decimal syntax: an optional sign, then digits with at most one point among them and at
  least one digit; the result is the \<open>float64\<close> nearest to the decimal value.  Exponents,
  hexadecimal floats, underscores, infinities and NaN, which Go accepts as well, are
  outside the model and are reported as syntax errors.  No form that Go accepts holds a
  space.
\<close>

fun splitSign :: "string \<Rightarrow> bool \<times> string" where
  "splitSign [] = (False, [])"
| "splitSign (c # cs) =
     (if c = CHR ''-'' then (True, cs)
      else if c = CHR ''+'' then (False, cs)
      else (False, c # cs))"

definition parseDecimal :: "string \<Rightarrow> rat option" where
  "parseDecimal s =
     (let body = snd (splitSign s);
          intPart = takeWhile isDigit body;
          rest = dropWhile isDigit body;
          fracPart = (case rest of
                        [] \<Rightarrow> Some []
                      | c # cs \<Rightarrow> if c = CHR ''.'' \<and> list_all isDigit cs then Some cs else None)
      in case fracPart of
           None \<Rightarrow> None
         | Some fp \<Rightarrow>
             if intPart = [] \<and> fp = [] then None
             else let v = of_nat (digitsValue (intPart @ fp)) / 10 ^ length fp
                  in Some (if fst (splitSign s) then - v else v))"

definition ParseFloat :: "string \<Rightarrow> error + float64" where
  "ParseFloat s =
     (case parseDecimal s of
        None \<Rightarrow> Inl (New (''strconv.ParseFloat: parsing '' @ [CHR 0x22] @ s @ [CHR 0x22]
                       @ '': invalid syntax''))
      | Some v \<Rightarrow> Inr (f64 v))"

definition bandwidthUnit :: "string \<Rightarrow> error + float64 \<times> string" where
  "bandwidthUnit limitStr =
     (if HasSuffix limitStr ''BPS'' then
        (if HasSuffix limitStr ''GBPS''
           then Inr (1024 * 1024 * 1024 / 8, TrimSuffix limitStr ''GBPS'')
         else if HasSuffix limitStr ''MBPS''
           then Inr (1024 * 1024 / 8, TrimSuffix limitStr ''MBPS'')
         else if HasSuffix limitStr ''KBPS''
           then Inr (1024 / 8, TrimSuffix limitStr ''KBPS'')
         else Inl (New (''unsupported bandwidth format: '' @ limitStr)))
      else if HasSuffix limitStr ''B/S'' then
        (if HasSuffix limitStr ''GB/S''
           then Inr (1024 * 1024 * 1024, TrimSuffix limitStr ''GB/S'')
         else if HasSuffix limitStr ''MB/S''
           then Inr (1024 * 1024, TrimSuffix limitStr ''MB/S'')
         else if HasSuffix limitStr ''KB/S''
           then Inr (1024, TrimSuffix limitStr ''KB/S'')
         else Inl (New (''unsupported bandwidth format: '' @ limitStr)))
      else Inl (New (''bandwidth limit must end with /s or bps (e.g., '' @ [CHR 0x27]
               @ ''100MB/s'' @ [CHR 0x27] @ '', '' @ [CHR 0x27] @ ''10Mbps'' @ [CHR 0x27]
               @ '')'')))"

text \<open>
  \<open>parseBandwidthLimit\<close>: \<open>bandwidthUnit\<close> is its chain of suffix tests, which fixes the
  multiplier and the text of the number.
\<close>

definition parseBandwidthLimit :: "string \<Rightarrow> error + float64" where
  "parseBandwidthLimit limitStr =
     (case bandwidthUnit (TrimSpace (ToUpper limitStr)) of
        Inl err \<Rightarrow> Inl err
      | Inr (multiplier, numStr) \<Rightarrow>
          (case ParseFloat numStr of
             Inl err \<Rightarrow> Inl (Errorf ''invalid number in bandwidth limit: '' err)
           | Inr num \<Rightarrow>
               if num \<le> 0 then Inl (New ''bandwidth limit must be positive'')
               else Inr (f64 (num * multiplier))))"

text \<open>
  The compiled pattern of \<open>BandwidthConfigValidator\<close>,
  \<^verbatim>\<open>^(\d+(?:\.\d+)?)\s*(KB/S|MB/S|GB/S|KBPS|MBPS|GBPS)$\<close>: digits, optionally a point and
  digits, any white space (\<^verbatim>\<open>\s\<close> is tab, newline, form feed, carriage return or space),
  one of the six units, the end of the text.
\<close>

definition isRegexSpace :: "char \<Rightarrow> bool" where
  "isRegexSpace c = ((of_char c :: nat) \<in> set [9, 10, 12, 13, 32])"

definition formatRegex_MatchString :: "string \<Rightarrow> bool" where
  "formatRegex_MatchString s =
     (let intPart = takeWhile isDigit s;
          rest = dropWhile isDigit s;
          afterNumber = (case rest of
                           [] \<Rightarrow> rest
                         | c # cs \<Rightarrow> if c = CHR ''.'' \<and> takeWhile isDigit cs \<noteq> []
                                    then dropWhile isDigit cs else rest)
      in intPart \<noteq> []
         \<and> dropWhile isRegexSpace afterNumber
              \<in> set [''KB/S'', ''MB/S'', ''GB/S'', ''KBPS'', ''MBPS'', ''GBPS''])"

definition ValidateBandwidthFormat :: "string \<Rightarrow> error option" where
  "ValidateBandwidthFormat limitStr =
     (if limitStr = '''' then None
      else if \<not> formatRegex_MatchString (TrimSpace (ToUpper limitStr))
      then Some (New (''invalid bandwidth format '' @ [CHR 0x27] @ limitStr @ [CHR 0x27]
                  @ ''. Valid formats: KB/s, MB/s, GB/s, Kbps, Mbps, Gbps''))
      else (case parseBandwidthLimit limitStr of
              Inl err \<Rightarrow> Some (Errorf ''failed to parse bandwidth limit: '' err)
            | Inr bytesPerSecond \<Rightarrow>
                if bytesPerSecond < 1024
                then Some (New ''bandwidth limit too low: minimum 1KB/s'')
                else if 100 * 1024 * 1024 * 1024 < bytesPerSecond
                then Some (New ''bandwidth limit too high: maximum 100GB/s'')
                else None))"

text \<open>
  The token bucket is \<open>rate.Limiter\<close> of \<open>golang.org/x/time/rate\<close>: here its two settings,
  and its blocking method \<open>WaitN\<close> as a parameter of the functions that call it.
\<close>

record rate_Limiter =
  rate_limit :: float64
  rate_burst :: int

record BandwidthLimiter =
  limiter :: "rate_Limiter option"
  enabled :: bool

definition NewBandwidthLimiter :: "string \<Rightarrow> error + BandwidthLimiter" where
  "NewBandwidthLimiter limitStr =
     (if limitStr = '''' then Inr \<lparr>limiter = None, enabled = False\<rparr>
      else (case parseBandwidthLimit limitStr of
              Inl err \<Rightarrow> Inl (Errorf ''invalid bandwidth limit format: '' err)
            | Inr bytesPerSecond \<Rightarrow>
                let burstSize = toInt64 (f64 (bytesPerSecond / 10));
                    burstSize = (if burstSize < 64 * 1024 then 64 * 1024 else burstSize)
                in Inr \<lparr>limiter = Some \<lparr>rate_limit = bytesPerSecond, rate_burst = burstSize\<rparr>,
                        enabled = True\<rparr>))"

text \<open>
  \<open>BandwidthLimiter.Wait\<close>.  An enabled limiter whose \<open>limiter\<close> field is nil makes Go panic
  in \<open>WaitN\<close>; the constructor never builds one, and the panic is shown as an error value.
\<close>

definition Wait ::
  "(rate_Limiter \<Rightarrow> 'c \<Rightarrow> int \<Rightarrow> error option) \<Rightarrow> BandwidthLimiter \<Rightarrow> 'c \<Rightarrow> int \<Rightarrow> error option" where
  "Wait WaitN bl ctx n =
     (if \<not> enabled bl then None
      else (case limiter bl of
              Some l \<Rightarrow> WaitN l ctx n
            | None \<Rightarrow> Some (New ''invalid memory address or nil pointer dereference'')))"

definition IsEnabled :: "BandwidthLimiter \<Rightarrow> bool" where
  "IsEnabled bl = enabled bl"

text \<open>
  The stream wrappers.  The wrapped stream is the function that gives, for the buffer
  passed, the count and the error its \<open>Read\<close> or \<open>Write\<close> returns.
\<close>

record 'c LimitedReader =
  lr_reader :: "byte list \<Rightarrow> int \<times> error option"
  lr_limiter :: BandwidthLimiter
  lr_ctx :: 'c

record 'c LimitedWriter =
  lw_writer :: "byte list \<Rightarrow> int \<times> error option"
  lw_limiter :: BandwidthLimiter
  lw_ctx :: 'c

definition LimitedReader_Read ::
  "(rate_Limiter \<Rightarrow> 'c \<Rightarrow> int \<Rightarrow> error option) \<Rightarrow> 'c LimitedReader \<Rightarrow> byte list
     \<Rightarrow> int \<times> error option" where
  "LimitedReader_Read WaitN lr p =
     (let (n, err) = lr_reader lr p
      in if 0 < n \<and> enabled (lr_limiter lr) then
           (case Wait WaitN (lr_limiter lr) (lr_ctx lr) n of
              Some waitErr \<Rightarrow> (n, Some waitErr)
            | None \<Rightarrow> (n, err))
         else (n, err))"

definition LimitedWriter_Write ::
  "(rate_Limiter \<Rightarrow> 'c \<Rightarrow> int \<Rightarrow> error option) \<Rightarrow> 'c LimitedWriter \<Rightarrow> byte list
     \<Rightarrow> int \<times> error option" where
  "LimitedWriter_Write WaitN lw p =
     (if enabled (lw_limiter lw) then
        (case Wait WaitN (lw_limiter lw) (lw_ctx lw) (int (length p)) of
           Some err \<Rightarrow> (0, Some err)
         | None \<Rightarrow> lw_writer lw p)
      else lw_writer lw p)"

section \<open>Properties of float64 rounding\<close>

lemma bitlen_powi:
  assumes "0 < p"
  shows "(2::rat) powi (bitlen p - 1) \<le> of_int p" "of_int p < (2::rat) powi (bitlen p)"
proof -
  from bitlen_bounds [OF assms]
  have lo: "2 ^ nat (bitlen p - 1) \<le> p" and hi: "p < 2 ^ nat (bitlen p)" by auto
  have b1: "1 \<le> bitlen p" using assms bitlen_eq_zero_iff [of p] bitlen_nonneg [of p] by linarith
  have "(2::rat) powi (bitlen p - 1) = 2 ^ nat (bitlen p - 1)"
    using b1 by (simp add: power_int_def)
  also have "\<dots> = of_int (2 ^ nat (bitlen p - 1))" by simp
  also have "\<dots> \<le> of_int p" using lo by (simp only: of_int_le_iff)
  finally show "(2::rat) powi (bitlen p - 1) \<le> of_int p" .
  have "(of_int p :: rat) < of_int (2 ^ nat (bitlen p))" using hi by (simp only: of_int_less_iff)
  also have "\<dots> = 2 ^ nat (bitlen p)" by simp
  also have "\<dots> = (2::rat) powi (bitlen p)" using b1 by (simp add: power_int_def)
  finally show "of_int p < (2::rat) powi (bitlen p)" .
qed

lemma ilog2_bounds:
  assumes "0 < x"
  shows "2 powi (ilog2 x) \<le> x" "x < 2 powi (ilog2 x + 1)"
proof -
  obtain p q where pq: "quotient_of x = (p, q)" by (cases "quotient_of x")
  have q0: "0 < q" using pq by (rule quotient_of_denom_pos)
  have x: "x = of_int p / of_int q" using pq by (rule quotient_of_div)
  have p0: "0 < p" using assms q0 x by (simp add: zero_less_divide_iff)
  define e0 where "e0 = bitlen p - bitlen q"
  have hi: "x < 2 powi (e0 + 1)"
  proof -
    have "x * 2 powi (bitlen q - 1) \<le> x * of_int q"
      using bitlen_powi(1) [OF q0] assms by (simp add: mult_left_mono)
    also have "\<dots> = of_int p" using x q0 by simp
    also have "\<dots> < 2 powi (bitlen p)" by (rule bitlen_powi(2) [OF p0])
    finally have "x < 2 powi (bitlen p) / 2 powi (bitlen q - 1)"
      by (simp add: pos_less_divide_eq zero_less_power_int)
    also have "\<dots> = 2 powi (e0 + 1)"
      by (simp add: e0_def power_int_diff [symmetric] algebra_simps)
    finally show ?thesis .
  qed
  have lo: "2 powi (e0 - 1) \<le> x"
  proof -
    have "2 powi (bitlen p - 1) \<le> (of_int p :: rat)" by (rule bitlen_powi(1) [OF p0])
    also have "\<dots> = x * of_int q" using x q0 by simp
    also have "\<dots> \<le> x * 2 powi (bitlen q)"
      using bitlen_powi(2) [OF q0] assms by (simp add: mult_left_mono)
    finally have "2 powi (bitlen p - 1) / 2 powi (bitlen q) \<le> x"
      by (simp add: pos_divide_le_eq zero_less_power_int)
    moreover have "2 powi (bitlen p - 1) / 2 powi (bitlen q) = (2::rat) powi (e0 - 1)"
      by (simp add: e0_def power_int_diff [symmetric] algebra_simps)
    ultimately show ?thesis by simp
  qed
  have il: "ilog2 x = (if 2 powi e0 \<le> x then e0 else e0 - 1)"
    by (simp add: ilog2_def pq e0_def)
  show "2 powi (ilog2 x) \<le> x" using lo by (simp add: il)
  show "x < 2 powi (ilog2 x + 1)" using hi by (auto simp: il not_le)
qed

lemma ilog2_unique:
  assumes "0 < x" "2 powi e \<le> x" "x < 2 powi (e + 1)"
  shows "ilog2 x = e"
proof (rule ccontr)
  assume ne: "ilog2 x \<noteq> e"
  note b = ilog2_bounds [OF assms(1)]
  show False
  proof (cases "ilog2 x < e")
    case True
    then have "(2::rat) powi (ilog2 x + 1) \<le> 2 powi e"
      by (intro power_int_increasing) auto
    with b(2) assms(2) show False by linarith
  next
    case False
    with ne have "e + 1 \<le> ilog2 x" by simp
    then have "(2::rat) powi (e + 1) \<le> 2 powi (ilog2 x)"
      by (intro power_int_increasing) auto
    with b(1) assms(3) show False by linarith
  qed
qed

lemma rne_floor: "\<lfloor>y\<rfloor> \<le> rne y" "rne y \<le> \<lfloor>y\<rfloor> + 1"
  by (auto simp: rne_def Let_def)

lemma rne_err: "\<bar>of_int (rne y) - y\<bar> \<le> 1/2"
proof -
  have "of_int \<lfloor>y\<rfloor> \<le> y" "y < of_int \<lfloor>y\<rfloor> + 1" by linarith+
  then show ?thesis
    by (auto simp: rne_def Let_def abs_le_iff)
qed

lemma rne_unique:
  assumes "\<bar>y - of_int k\<bar> < 1/2"
  shows "rne y = k"
proof -
  have "\<bar>(of_int (rne y) :: rat) - of_int k\<bar> < 1"
    using rne_err [of y] assms by linarith
  then have "\<bar>rne y - k\<bar> < 1"
    by (metis of_int_abs of_int_diff of_int_less_1_iff)
  then show ?thesis by simp
qed

lemma rne_of_int: "rne (of_int k) = k"
  by (rule rne_unique) simp

lemma rne_mono:
  assumes "y1 \<le> y2"
  shows "rne y1 \<le> rne y2"
proof (cases "\<lfloor>y1\<rfloor> = \<lfloor>y2\<rfloor>")
  case True
  then show ?thesis using assms by (auto simp: rne_def Let_def)
next
  case False
  then have "\<lfloor>y1\<rfloor> < \<lfloor>y2\<rfloor>" using assms floor_mono [of y1 y2] by linarith
  then show ?thesis using rne_floor(2) [of y1] rne_floor(1) [of y2] by linarith
qed



lemma ulp_pos: "0 < ulp x"
  by (simp add: ulp_def zero_less_power_int)

lemma f64_pos_eq: "0 < x \<Longrightarrow> f64 x = of_int (rne (x / ulp x)) * ulp x"
  by (simp add: f64_def)

lemma f64_minus: "f64 (- x) = - f64 x"
  by (simp add: f64_def ulp_def sgn_minus)

lemma f64_zero: "f64 0 = 0"
  by (simp add: f64_def)

lemma mant_bounds:
  assumes "0 < x"
  shows "2 ^ 52 \<le> x / ulp x" "x / ulp x < 2 ^ 53"
proof -
  note b = ilog2_bounds [OF assms]
  have u: "ulp x = 2 powi (ilog2 x) / 2 ^ 52"
    using assms by (simp add: ulp_def power_int_diff)
  have p: "(0::rat) < 2 powi (ilog2 x)" by (simp add: zero_less_power_int)
  have x2: "x / ulp x = x / 2 powi (ilog2 x) * 2 ^ 52"
    by (simp add: u)
  have "1 \<le> x / 2 powi (ilog2 x)" using b(1) p by (simp add: pos_le_divide_eq)
  then have "1 * 2 ^ 52 \<le> x / 2 powi (ilog2 x) * 2 ^ 52" by (intro mult_right_mono) simp_all
  then show "2 ^ 52 \<le> x / ulp x" unfolding x2 by (simp only: mult_1)
  have "2 powi (ilog2 x + 1) = 2 powi (ilog2 x) * (2::rat)"
    by (simp add: power_int_add)
  then have "x / 2 powi (ilog2 x) < 2" using b(2) p by (simp add: pos_divide_less_eq mult.commute)
  then have "x / 2 powi (ilog2 x) * 2 ^ 52 < 2 * 2 ^ 52" by (intro mult_strict_right_mono) simp_all
  then show "x / ulp x < 2 ^ 53" unfolding x2 by simp
qed

lemma rne_le: "y \<le> of_int n \<Longrightarrow> rne y \<le> n"
  using rne_mono [of y "of_int n"] by (simp add: rne_of_int)

lemma rne_ge: "of_int n \<le> y \<Longrightarrow> n \<le> rne y"
  using rne_mono [of "of_int n" y] by (simp add: rne_of_int)

lemma f64_bounds:
  assumes "0 < x"
  shows "2 powi (ilog2 x) \<le> f64 x" "f64 x \<le> 2 powi (ilog2 x + 1)"
proof -
  note m = mant_bounds [OF assms]
  have u: "ulp x = 2 powi (ilog2 x) / 2 ^ 52"
    using assms by (simp add: ulp_def power_int_diff)
  have "(2::int) ^ 52 \<le> rne (x / ulp x)" using m(1) by (intro rne_ge) simp
  then have "(2::rat) ^ 52 \<le> of_int (rne (x / ulp x))"
    by (metis of_int_le_iff of_int_numeral of_int_power)
  then have "2 ^ 52 * ulp x \<le> of_int (rne (x / ulp x)) * ulp x"
    using ulp_pos [of x] by (simp add: mult_right_mono)
  then show "2 powi (ilog2 x) \<le> f64 x"
    by (simp add: f64_pos_eq [OF assms] u)
  have "rne (x / ulp x) \<le> (2::int) ^ 53" using m(2) by (intro rne_le) simp
  then have "of_int (rne (x / ulp x)) \<le> (2::rat) ^ 53"
    by (metis of_int_le_iff of_int_numeral of_int_power)
  then have "of_int (rne (x / ulp x)) * ulp x \<le> 2 ^ 53 * ulp x"
    using ulp_pos [of x] by (simp add: mult_right_mono)
  moreover have "2 ^ 53 * ulp x = 2 powi (ilog2 x + 1)"
    by (simp add: u power_int_add)
  ultimately show "f64 x \<le> 2 powi (ilog2 x + 1)"
    by (simp add: f64_pos_eq [OF assms])
qed

lemma f64_pos: "0 < x \<Longrightarrow> 0 < f64 x"
  using f64_bounds(1) [of x] zero_less_power_int [of "2::rat" "ilog2 x"] by linarith

lemma ilog2_mono:
  assumes "0 < x" "x \<le> y"
  shows "ilog2 x \<le> ilog2 y"
proof (rule ccontr)
  assume "\<not> ilog2 x \<le> ilog2 y"
  then have "ilog2 y + 1 \<le> ilog2 x" by simp
  then have "(2::rat) powi (ilog2 y + 1) \<le> 2 powi (ilog2 x)"
    by (intro power_int_increasing) auto
  with ilog2_bounds(1) [OF assms(1)] ilog2_bounds(2) [of y] assms show False by linarith
qed

lemma f64_mono_pos:
  assumes "0 < x" "x \<le> y"
  shows "f64 x \<le> f64 y"
proof (cases "ilog2 x = ilog2 y")
  case True
  have y: "0 < y" using assms by simp
  have u: "ulp x = ulp y" using True assms by (simp add: ulp_def)
  have "x / ulp y \<le> y / ulp y" using assms ulp_pos [of y] by (simp add: divide_right_mono)
  then have "rne (x / ulp y) \<le> rne (y / ulp y)" by (rule rne_mono)
  then have "(of_int (rne (x / ulp y)) :: rat) \<le> of_int (rne (y / ulp y))" by simp
  then show ?thesis
    using ulp_pos [of y] by (simp add: f64_pos_eq [OF assms(1)] f64_pos_eq [OF y] u mult_right_mono)
next
  case False
  have y: "0 < y" using assms by simp
  from False ilog2_mono [OF assms] have "ilog2 x + 1 \<le> ilog2 y" by simp
  then have "(2::rat) powi (ilog2 x + 1) \<le> 2 powi (ilog2 y)"
    by (intro power_int_increasing) auto
  with f64_bounds(2) [OF assms(1)] f64_bounds(1) [OF y] show ?thesis by linarith
qed

lemma f64_mono:
  assumes "x \<le> y"
  shows "f64 x \<le> f64 y"
proof -
  consider "0 < x" | "x \<le> 0" "0 \<le> y" | "y < 0" by linarith
  then show ?thesis
  proof cases
    case 1
    then show ?thesis using assms by (rule f64_mono_pos)
  next
    case 2
    have "f64 x \<le> 0"
    proof (cases "x = 0")
      case True then show ?thesis by (simp add: f64_zero)
    next
      case False
      then have "0 < - x" using 2 by simp
      from f64_pos [OF this] show ?thesis by (simp add: f64_minus)
    qed
    moreover have "0 \<le> f64 y"
    proof (cases "y = 0")
      case True then show ?thesis by (simp add: f64_zero)
    next
      case False
      then have "0 < y" using 2 by simp
      from f64_pos [OF this] show ?thesis by simp
    qed
    ultimately show ?thesis by simp
  next
    case 3
    then have "0 < - y" "- y \<le> - x" using assms by simp_all
    from f64_mono_pos [OF this] show ?thesis by (simp add: f64_minus)
  qed
qed

lemma f64_nearest:
  assumes "0 < x" and "\<bar>x - of_int n * ulp x\<bar> < ulp x / 2"
  shows "f64 x = of_int n * ulp x"
proof -
  have "\<bar>x / ulp x - of_int n\<bar> = \<bar>x - of_int n * ulp x\<bar> / ulp x"
    using ulp_pos [of x] by (simp add: abs_divide field_simps)
  also have "\<dots> < 1/2"
    using assms(2) ulp_pos [of x] by (simp add: pos_divide_less_eq)
  finally have "rne (x / ulp x) = n" by (rule rne_unique)
  then show ?thesis by (simp add: f64_pos_eq [OF assms(1)])
qed

lemma f64_err:
  assumes "0 < x"
  shows "\<bar>f64 x - x\<bar> \<le> ulp x / 2"
proof -
  have "f64 x - x = (of_int (rne (x / ulp x)) - x / ulp x) * ulp x"
    using ulp_pos [of x] by (simp add: f64_pos_eq [OF assms] left_diff_distrib)
  then have "\<bar>f64 x - x\<bar> = \<bar>of_int (rne (x / ulp x)) - x / ulp x\<bar> * ulp x"
    using ulp_pos [of x] by (simp add: abs_mult)
  also have "\<dots> \<le> 1/2 * ulp x"
    using rne_err [of "x / ulp x"] ulp_pos [of x] by (intro mult_right_mono) simp_all
  finally show ?thesis by simp
qed

lemma f64_scale_pos:
  assumes "0 < x"
  shows "f64 (x * 2 powi k) = f64 x * 2 powi k"
proof -
  have p: "(0::rat) < 2 powi k" by (simp add: zero_less_power_int)
  have xk: "0 < x * 2 powi k" using assms p by simp
  note b = ilog2_bounds [OF assms]
  have "ilog2 (x * 2 powi k) = ilog2 x + k"
  proof (rule ilog2_unique [OF xk])
    show "2 powi (ilog2 x + k) \<le> x * 2 powi k"
      using b(1) p by (simp add: power_int_add mult_right_mono)
    have "x * 2 powi k < 2 powi (ilog2 x + 1) * 2 powi k"
      using b(2) p by (simp add: mult_strict_right_mono)
    then show "x * 2 powi k < 2 powi (ilog2 x + k + 1)"
      by (simp add: power_int_add mult_ac)
  qed
  then have u: "ulp (x * 2 powi k) = ulp x * 2 powi k"
    using xk assms by (simp add: ulp_def power_int_add power_int_diff)
  have "x * 2 powi k / (ulp x * 2 powi k) = x / ulp x" using p by simp
  then show ?thesis
    by (simp add: f64_pos_eq [OF xk] f64_pos_eq [OF assms] u)
qed

lemma f64_scale: "f64 (x * 2 powi k) = f64 x * 2 powi k"
proof -
  consider "0 < x" | "x = 0" | "x < 0" by linarith
  then show ?thesis
  proof cases
    case 1 then show ?thesis by (rule f64_scale_pos)
  next
    case 2 then show ?thesis by (simp add: f64_zero)
  next
    case 3
    then have "0 < - x" by simp
    from f64_scale_pos [OF this, of k] show ?thesis by (simp add: f64_minus)
  qed
qed

lemma f64_repr_pos:
  assumes "0 < m" "m \<le> 2 ^ 53"
  shows "f64 (of_int m * 2 powi k) = of_int m * 2 powi k"
proof -
  define x :: rat where "x = of_int m"
  have x0: "0 < x" using assms by (simp add: x_def)
  have fx: "f64 x = x"
  proof -
    have xle: "x \<le> 2 ^ 53"
      unfolding x_def using assms(2) by (metis of_int_le_iff of_int_numeral of_int_power)
    have lo: "2 powi (ilog2 x) \<le> x" by (rule ilog2_bounds(1) [OF x0])
    have le53: "ilog2 x \<le> 53"
    proof (rule ccontr)
      assume "\<not> ilog2 x \<le> 53"
      then have "54 \<le> ilog2 x" by simp
      then have "(2::rat) powi 54 \<le> 2 powi (ilog2 x)"
        by (intro power_int_increasing) simp_all
      with lo have "(2::rat) ^ 54 \<le> x" by simp
      with xle show False by simp
    qed
    have ge0: "0 \<le> ilog2 x"
    proof (rule ccontr)
      assume "\<not> 0 \<le> ilog2 x"
      then have "ilog2 x + 1 \<le> 0" by simp
      then have "(2::rat) powi (ilog2 x + 1) \<le> 2 powi 0"
        by (intro power_int_increasing) auto
      moreover have "1 \<le> x" using assms(1) by (simp add: x_def)
      ultimately show False using ilog2_bounds(2) [OF x0] by simp
    qed
    show ?thesis
    proof (cases "ilog2 x = 53")
      case True
      then have "x = 2 ^ 53" using ilog2_bounds(1) [OF x0] xle by simp
      then have "x = 1 * 2 powi 53" by simp
      moreover have "f64 (1 * 2 powi 53) = f64 1 * 2 powi 53" by (rule f64_scale)
      moreover have "f64 1 = 1" by code_simp
      ultimately show ?thesis by simp
    next
      case False
      with le53 have le52: "ilog2 x \<le> 52" by simp
      define j where "j = nat (52 - ilog2 x)"
      have j: "int j = 52 - ilog2 x" using le52 by (simp add: j_def)
      have "ulp x = 2 powi (- int j)" using x0 j by (simp add: ulp_def)
      then have u: "ulp x = 1 / 2 ^ j" by (simp add: power_int_minus_divide)
      have "x / ulp x = x * 2 ^ j" by (simp add: u)
      also have "\<dots> = of_int (m * 2 ^ j)" by (simp add: x_def)
      finally have xu: "x / ulp x = of_int (m * 2 ^ j)" .
      have "rne (x / ulp x) = m * 2 ^ j" unfolding xu by (rule rne_of_int)
      then have "f64 x = of_int (m * 2 ^ j) * (1 / 2 ^ j)"
        by (simp only: f64_pos_eq [OF x0] u)
      also have "\<dots> = x" by (simp add: x_def)
      finally show ?thesis .
    qed
  qed
  show ?thesis using f64_scale [of x k] fx by (simp add: x_def)
qed

lemma f64_of_int:
  assumes "\<bar>n\<bar> \<le> 2 ^ 53"
  shows "f64 (of_int n) = of_int n"
proof -
  consider "0 < n" | "n = 0" | "n < 0" by linarith
  then show ?thesis
  proof cases
    case 1
    with assms f64_repr_pos [of n 0] show ?thesis by simp
  next
    case 2 then show ?thesis by (simp add: f64_zero)
  next
    case 3
    with assms f64_repr_pos [of "- n" 0] have "f64 (- of_int n) = - of_int n" by simp
    then show ?thesis by (simp add: f64_minus)
  qed
qed

lemma f64_idem: "f64 (f64 x) = f64 x"
proof -
  have pos: "f64 (f64 y) = f64 y" if "0 < y" for y
  proof -
    have m: "rne (y / ulp y) \<le> 2 ^ 53"
      using mant_bounds(2) [OF that] by (intro rne_le) simp
    have m0: "0 < rne (y / ulp y)"
    proof -
      have "(2::int) ^ 52 \<le> rne (y / ulp y)"
        using mant_bounds(1) [OF that] by (intro rne_ge) simp
      then show ?thesis by simp
    qed
    show ?thesis
      unfolding f64_pos_eq [OF that] ulp_def
      by (rule f64_repr_pos [OF m0 [unfolded ulp_def] m [unfolded ulp_def]])
  qed
  consider "0 < x" | "x = 0" | "x < 0" by linarith
  then show ?thesis
  proof cases
    case 1 then show ?thesis by (rule pos)
  next
    case 2 then show ?thesis by (simp add: f64_zero)
  next
    case 3
    then have "0 < - x" by simp
    from pos [OF this] show ?thesis by (simp add: f64_minus)
  qed
qed

lemma f64_half: "f64 (1/2) = 1/2" "f64 1 = 1"
  by code_simp+

lemma toInt64_le:
  assumes "x \<le> of_int m"
  shows "toInt64 x \<le> m"
proof (cases "0 \<le> x")
  case True
  then show ?thesis using assms by (simp add: toInt64_def floor_le_iff)
next
  case False
  then show ?thesis using assms by (simp add: toInt64_def ceiling_le_iff)
qed

lemma toInt64_mono:
  assumes "x \<le> y"
  shows "toInt64 x \<le> toInt64 y"
proof -
  consider "0 \<le> x" | "x < 0" "0 \<le> y" | "y < 0" by linarith
  then show ?thesis
  proof cases
    case 1
    then show ?thesis using assms by (simp add: toInt64_def floor_mono)
  next
    case 2
    have "\<lceil>x\<rceil> \<le> 0" using 2(1) by (simp add: ceiling_le_iff)
    moreover have "0 \<le> \<lfloor>y\<rfloor>" using 2(2) by simp
    ultimately have "\<lceil>x\<rceil> \<le> \<lfloor>y\<rfloor>" by (rule order_trans)
    then show ?thesis using 2 by (simp add: toInt64_def)
  next
    case 3
    then show ?thesis using assms by (simp add: toInt64_def ceiling_mono)
  qed
qed

section \<open>Properties of the sync strategies\<close>

lemma Contains_iff: "Contains s sub \<longleftrightarrow> (\<exists>xs ys. s = xs @ sub @ ys)"
proof (induction s)
  case Nil
  then show ?case by auto
next
  case (Cons c cs)
  have pre: "HasPrefix t p \<longleftrightarrow> (\<exists>ys. t = p @ ys)" for t p
    by (induction t p rule: HasPrefix.induct) auto
  show ?case
  proof
    assume "Contains (c # cs) sub"
    then consider "HasPrefix (c # cs) sub" | "Contains cs sub" by auto
    then show "\<exists>xs ys. c # cs = xs @ sub @ ys"
    proof cases
      case 1
      then obtain ys where "c # cs = sub @ ys" using pre by blast
      then have "c # cs = [] @ sub @ ys" by simp
      then show ?thesis by blast
    next
      case 2
      then obtain xs ys where "cs = xs @ sub @ ys" using Cons.IH by blast
      then have "c # cs = (c # xs) @ sub @ ys" by simp
      then show ?thesis by blast
    qed
  next
    assume "\<exists>xs ys. c # cs = xs @ sub @ ys"
    then obtain xs ys where e: "c # cs = xs @ sub @ ys" by blast
    show "Contains (c # cs) sub"
    proof (cases xs)
      case Nil
      then have "HasPrefix (c # cs) sub" using e pre by auto
      then show ?thesis by simp
    next
      case (Cons x xs')
      then have "cs = xs' @ sub @ ys" using e by simp
      then have "Contains cs sub" using Cons.IH by blast
      then show ?thesis by simp
    qed
  qed
qed

lemma isMultipartETag_iff: "isMultipartETag etag \<longleftrightarrow> CHR ''-'' \<in> set etag"
proof -
  have "(\<exists>xs ys. etag = xs @ ''-'' @ ys) \<longleftrightarrow> CHR ''-'' \<in> set etag"
    by (auto simp: in_set_conv_decomp)
  then show ?thesis by (simp add: isMultipartETag_def Contains_iff)
qed

text \<open>
  Claim C8.  The default size+mtime strategy: when the source's modification time is
  strictly later than the destination's the result is nil (copy); otherwise, when the sizes
  differ, the result is nil (copy); otherwise it is the skip reason
  \<open>ErrObjectIsNewerAndSizesMatch\<close>.
\<close>

theorem SizeAndModification_ShouldSync_decision:
  "SizeAndModification_ShouldSync srcObj dstObj =
     (if ModTime srcObj > ModTime dstObj then None
      else if Size srcObj \<noteq> Size dstObj then None
      else Some ErrObjectIsNewerAndSizesMatch)"
  by (simp add: SizeAndModification_ShouldSync_def)

text \<open>
  Claim C9.  In the hash strategy, whenever the hash token of the source or of the
  destination contains the separator character \<open>-\<close>, the result is nil (copy), whether or
  not the two tokens are equal.
\<close>

theorem Hash_ShouldSync_multipart:
  assumes "CHR ''-'' \<in> set (getHash fs md5hex srcObj) \<or> CHR ''-'' \<in> set (getHash fs md5hex dstObj)"
  shows "Hash_ShouldSync fs md5hex srcObj dstObj = None"
  using assms by (simp add: Hash_ShouldSync_def Let_def isMultipartETag_iff)

theorem Hash_ShouldSync_multipart_witness:
  "(CHR ''-'' \<in> set (getHash (\<lambda>p. OpenFails) (\<lambda>bs. [])
        \<lparr>URL = RemoteURL ''s3://bucket/key'', Size = 100, ModTime = 0, Etag = ''abc-5''\<rparr>)
    \<or> CHR ''-'' \<in> set (getHash (\<lambda>p. OpenFails) (\<lambda>bs. [])
        \<lparr>URL = RemoteURL ''s3://bucket/key2'', Size = 100, ModTime = 0, Etag = ''abc-5''\<rparr>))
   \<and> Hash_ShouldSync (\<lambda>p. OpenFails) (\<lambda>bs. [])
        \<lparr>URL = RemoteURL ''s3://bucket/key'', Size = 100, ModTime = 0, Etag = ''abc-5''\<rparr>
        \<lparr>URL = RemoteURL ''s3://bucket/key2'', Size = 100, ModTime = 0, Etag = ''abc-5''\<rparr> = None"
proof -
  have h: "CHR ''-'' \<in> set (getHash (\<lambda>p. OpenFails) (\<lambda>bs. [])
        \<lparr>URL = RemoteURL ''s3://bucket/key'', Size = 100, ModTime = 0, Etag = ''abc-5''\<rparr>)
    \<or> CHR ''-'' \<in> set (getHash (\<lambda>p. OpenFails) (\<lambda>bs. [])
        \<lparr>URL = RemoteURL ''s3://bucket/key2'', Size = 100, ModTime = 0, Etag = ''abc-5''\<rparr>)"
    by (simp add: getHash_def)
  from Hash_ShouldSync_multipart [OF h] h show ?thesis by blast
qed

text \<open>
  Claim C3.  A hash computation that fails gives the empty token, and the claim says that
  an empty token forces "copy", also when both sides give the empty token.  Evaluated on
  two local objects of equal size, without stored entity tag, whose files cannot be opened:
  both tokens are empty, and the strategy answers "skip" with \<open>ErrObjectEtagsMatch\<close>.  The
  same happens for a local source that cannot be read against a remote destination whose
  entity tag is empty.
\<close>

theorem Hash_ShouldSync_both_tokens_empty:
  "getHash (\<lambda>p. OpenFails) md5hex
      \<lparr>URL = LocalURL ''/data/src/file'', Size = 100, ModTime = 0, Etag = ''''\<rparr> = ''''
   \<and> getHash (\<lambda>p. OpenFails) md5hex
      \<lparr>URL = LocalURL ''/data/dst/file'', Size = 100, ModTime = 0, Etag = ''''\<rparr> = ''''
   \<and> Hash_ShouldSync (\<lambda>p. OpenFails) md5hex
      \<lparr>URL = LocalURL ''/data/src/file'', Size = 100, ModTime = 0, Etag = ''''\<rparr>
      \<lparr>URL = LocalURL ''/data/dst/file'', Size = 100, ModTime = 0, Etag = ''''\<rparr>
     = Some ErrObjectEtagsMatch
   \<and> Hash_ShouldSync (\<lambda>p. ReadFails) md5hex
      \<lparr>URL = LocalURL ''/data/src/file'', Size = 100, ModTime = 0, Etag = ''''\<rparr>
      \<lparr>URL = RemoteURL ''s3://bucket/file'', Size = 100, ModTime = 0, Etag = ''''\<rparr>
     = Some ErrObjectEtagsMatch"
  by (simp add: Hash_ShouldSync_def getHash_def isMultipartETag_def)

section \<open>Properties of the sync planner\<close>

lemma planRun_deletes:
  "filter isDelete (fst (planRun strategy joinDest onlySource onlyDest commonPairs delete maxDelete))
     = fst (planDeletes delete maxDelete onlyDest)"
proof -
  have a: "filter isDelete (map (\<lambda>(src, key). Copy src (joinDest key)) xs) = []" for xs
    by (induction xs) auto
  have b: "filter isDelete (map (\<lambda>(s, d). Copy (URL s) (URL d)) ys) = []"
    for ys :: "(Object \<times> Object) list"
    by (induction ys) auto
  have c: "filter isDelete (fst (planDeletes delete maxDelete onlyDest))
             = fst (planDeletes delete maxDelete onlyDest)"
    by (simp add: planDeletes_def Let_def filter_id_conv)
  show ?thesis
    by (simp add: planRun_def Let_def a b c)
qed

lemma planDeletes_shouldDelete:
  "planDeletes True maxDelete onlyDest =
     (if shouldDelete maxDelete (int (length onlyDest)) then (map Delete onlyDest, [])
      else ([], [refusalMessage (int (length onlyDest)) maxDelete]))"
  by (auto simp: planDeletes_def shouldDelete_def Let_def)

text \<open>
  Claim C2.  With \<open>delete\<close> enabled, a limit \<open>maxDelete \<ge> 0\<close> and more destination-only
  entries than the limit, the plan holds no \<open>Delete\<close> item and exactly one error is surfaced,
  "refusing to delete N files; more than max-delete limit of M" with the count and the limit
  in decimal.  When the count is within the limit, or the limit is negative, the \<open>Delete\<close>
  items of the plan are one per destination-only entry, and no error is surfaced.
\<close>

theorem planRun_max_delete:
  "(delete \<and> 0 \<le> maxDelete \<and> maxDelete < int (length onlyDest) \<longrightarrow>
      filter isDelete (fst (planRun strategy joinDest onlySource onlyDest commonPairs delete maxDelete)) = []
      \<and> snd (planRun strategy joinDest onlySource onlyDest commonPairs delete maxDelete)
          = [''refusing to delete '' @ Sprint_d (int (length onlyDest))
               @ '' files; more than max-delete limit of '' @ Sprint_d maxDelete])
   \<and> (delete \<and> (int (length onlyDest) \<le> maxDelete \<or> maxDelete < 0) \<longrightarrow>
      filter isDelete (fst (planRun strategy joinDest onlySource onlyDest commonPairs delete maxDelete))
          = map Delete onlyDest
      \<and> snd (planRun strategy joinDest onlySource onlyDest commonPairs delete maxDelete) = [])"
proof -
  have s: "snd (planRun strategy joinDest onlySource onlyDest commonPairs delete maxDelete)
             = snd (planDeletes delete maxDelete onlyDest)"
    by (simp add: planRun_def Let_def)
  show ?thesis
    unfolding planRun_deletes s
    by (auto simp: planDeletes_def Let_def refusalMessage_def)
qed

theorem planRun_max_delete_witness:
  "filter isDelete (fst (planRun SizeOnly_ShouldSync LocalURL []
        [RemoteURL ''s3://dest-bucket/file0.txt'', RemoteURL ''s3://dest-bucket/file1.txt'',
         RemoteURL ''s3://dest-bucket/file2.txt'', RemoteURL ''s3://dest-bucket/file3.txt'',
         RemoteURL ''s3://dest-bucket/file4.txt''] [] True 3)) = []
   \<and> snd (planRun SizeOnly_ShouldSync LocalURL []
        [RemoteURL ''s3://dest-bucket/file0.txt'', RemoteURL ''s3://dest-bucket/file1.txt'',
         RemoteURL ''s3://dest-bucket/file2.txt'', RemoteURL ''s3://dest-bucket/file3.txt'',
         RemoteURL ''s3://dest-bucket/file4.txt''] [] True 3)
       = [''refusing to delete 5 files; more than max-delete limit of 3'']
   \<and> filter isDelete (fst (planRun SizeOnly_ShouldSync LocalURL []
        [RemoteURL ''s3://dest-bucket/file0.txt'', RemoteURL ''s3://dest-bucket/file1.txt'']
        [] True (- 1)))
       = [Delete (RemoteURL ''s3://dest-bucket/file0.txt''),
          Delete (RemoteURL ''s3://dest-bucket/file1.txt'')]
   \<and> snd (planRun SizeOnly_ShouldSync LocalURL []
        [RemoteURL ''s3://dest-bucket/file0.txt'', RemoteURL ''s3://dest-bucket/file1.txt'']
        [] True (- 1)) = []"
proof -
  have d5: "Sprint_d 5 = ''5''" and d3: "Sprint_d 3 = ''3''"
    by code_simp+
  have refuse: "True \<and> (0::int) \<le> 3
      \<and> 3 < int (length [RemoteURL ''s3://dest-bucket/file0.txt'',
          RemoteURL ''s3://dest-bucket/file1.txt'', RemoteURL ''s3://dest-bucket/file2.txt'',
          RemoteURL ''s3://dest-bucket/file3.txt'', RemoteURL ''s3://dest-bucket/file4.txt''])"
    by simp
  have allow: "True \<and> (int (length [RemoteURL ''s3://dest-bucket/file0.txt'',
          RemoteURL ''s3://dest-bucket/file1.txt'']) \<le> - 1 \<or> (- 1 :: int) < 0)"
    by simp
  from planRun_max_delete [of True 3 "[RemoteURL ''s3://dest-bucket/file0.txt'',
          RemoteURL ''s3://dest-bucket/file1.txt'', RemoteURL ''s3://dest-bucket/file2.txt'',
          RemoteURL ''s3://dest-bucket/file3.txt'', RemoteURL ''s3://dest-bucket/file4.txt'']"
          SizeOnly_ShouldSync LocalURL "[]" "[]"] refuse
       planRun_max_delete [of True "- 1" "[RemoteURL ''s3://dest-bucket/file0.txt'',
          RemoteURL ''s3://dest-bucket/file1.txt'']" SizeOnly_ShouldSync LocalURL "[]" "[]"] allow
  show ?thesis
    by (simp add: d5 d3)
qed

section \<open>Properties of the retry controller\<close>

lemma WithRetry_loop_lastErr:
  assumes "attempt \<le> MaxRetries config"
  shows "WithRetry_loop toLower operation wait config attempt l =
         WithRetry_loop toLower operation wait config attempt l'"
  using assms
  by (subst WithRetry_loop.simps, subst (2) WithRetry_loop.simps) simp

lemma WithRetry_loop_reach:
  assumes "\<forall>j. a \<le> j \<and> j < k \<longrightarrow>
           (\<exists>e. operation j = Some e \<and> IsRetryableError toLower (Some e)) \<and> wait j = None"
    and "a \<le> k" "int k \<le> MaxRetries config"
  shows "WithRetry_loop toLower operation wait config (int a) l =
         WithRetry_loop toLower operation wait config (int k) l'"
  using assms
proof (induction "k - a" arbitrary: a l)
  case 0
  then have "a = k" by simp
  with 0 show ?case
    by (simp add: WithRetry_loop_lastErr [of "int k" config toLower operation wait l l'])
next
  case (Suc n)
  then have lt: "a < k" by simp
  with Suc.prems obtain e
    where e: "operation a = Some e" "IsRetryableError toLower (Some e)" "wait a = None"
    by blast
  have step: "WithRetry_loop toLower operation wait config (int a) l =
        WithRetry_loop toLower operation wait config (int (Suc a)) (Some e)"
    using e lt Suc.prems(3)
    by (subst WithRetry_loop.simps) (simp add: add.commute)
  have "n = k - Suc a" using Suc.hyps(2) by simp
  from Suc.hyps(1) [OF this] Suc.prems(1,3) lt
  show ?case unfolding step by simp
qed

lemma WithRetry_loop_fails_at:
  assumes "operation k = Some err"
    and "\<forall>j<k. (\<exists>e. operation j = Some e \<and> IsRetryableError toLower (Some e)) \<and> wait j = None"
    and "int k \<le> MaxRetries config"
  shows "WithRetry toLower operation wait config =
           (if int k = MaxRetries config then exhausted config (Some err)
            else if \<not> IsRetryableError toLower (Some err) then Some err
            else (case wait k of
                    Some ctxErr \<Rightarrow> Some ctxErr
                  | None \<Rightarrow> WithRetry_loop toLower operation wait config (int k + 1) (Some err)))"
proof -
  have "WithRetry_loop toLower operation wait config (int 0) None =
        WithRetry_loop toLower operation wait config (int k) None"
    using assms(2,3) by (intro WithRetry_loop_reach) auto
  also have "\<dots> =
           (if int k = MaxRetries config then exhausted config (Some err)
            else if \<not> IsRetryableError toLower (Some err) then Some err
            else (case wait k of
                    Some ctxErr \<Rightarrow> Some ctxErr
                  | None \<Rightarrow> WithRetry_loop toLower operation wait config (int k + 1) (Some err)))"
    using assms(1,3) by (subst WithRetry_loop.simps) simp
  finally show ?thesis by (simp add: WithRetry_def)
qed

text \<open>
  Claim C1, as stated, at the final attempt.  With the default configuration (three
  retries), the operation fails three times with "connection timeout" and then, at the
  final attempt, with the non-retryable "access denied": the loop does not return that
  error as it is, it returns it inside the envelope "operation failed after 4 retries".
\<close>

theorem WithRetry_final_attempt_wrapped:
  "\<not> IsRetryableError ToLower (Some (New ''access denied''))
   \<and> WithRetry ToLower
        (\<lambda>k. if k < 3 then Some (New ''connection timeout'') else Some (New ''access denied''))
        (\<lambda>k. None) DefaultClientCopyRetryConfig
       = Some (RetriesExhausted 4 (Some (New ''access denied'')))
   \<and> WithRetry ToLower
        (\<lambda>k. if k < 3 then Some (New ''connection timeout'') else Some (New ''access denied''))
        (\<lambda>k. None) DefaultClientCopyRetryConfig
       \<noteq> Some (New ''access denied'')
   \<and> Error (RetriesExhausted 4 (Some (New ''access denied'')))
       = ''operation failed after 4 retries: access denied''"
  by code_simp

text \<open>
  Claim C1, amended.  Let the operation fail with an error at attempt \<open>k \<le> MaxRetries\<close>,
  every earlier attempt having failed with a retryable error whose wait ended by the
  timer.  If \<open>k\<close> is below \<open>MaxRetries\<close> and the error is non-retryable (per
  \<open>IsRetryableError\<close>, whatever \<open>strings.ToLower\<close> does), the loop returns that error as it
  is, unwrapped.  If \<open>k\<close> is the final attempt (\<open>k = MaxRetries\<close>), the loop returns the
  error, retryable or not, inside the envelope
  "operation failed after \<open>MaxRetries + 1\<close> retries".
\<close>

theorem WithRetry_non_retryable:
  assumes "operation k = Some err"
    and "\<forall>j<k. (\<exists>e. operation j = Some e \<and> IsRetryableError toLower (Some e)) \<and> wait j = None"
    and "int k \<le> MaxRetries config"
  shows "(int k < MaxRetries config \<and> \<not> IsRetryableError toLower (Some err) \<longrightarrow>
            WithRetry toLower operation wait config = Some err)
       \<and> (int k = MaxRetries config \<longrightarrow>
            WithRetry toLower operation wait config
              = Some (RetriesExhausted (MaxRetries config + 1) (Some err)))"
  using WithRetry_loop_fails_at [OF assms] by (simp add: exhausted_def)

theorem WithRetry_non_retryable_witness:
  "WithRetry ToLower
        (\<lambda>k. if k < 1 then Some (New ''connection timeout'') else Some (New ''access denied''))
        (\<lambda>k. None) DefaultClientCopyRetryConfig
      = Some (New ''access denied'')
   \<and> WithRetry ToLower
        (\<lambda>k. if k < 3 then Some (New ''i/o timeout'') else Some (New ''access denied''))
        (\<lambda>k. None) DefaultClientCopyRetryConfig
      = Some (RetriesExhausted 4 (Some (New ''access denied'')))
   \<and> WithRetry ToLower (\<lambda>k. Some (New ''connection timeout'')) (\<lambda>k. None)
        DefaultClientCopyRetryConfig
      = Some (RetriesExhausted 4 (Some (New ''connection timeout'')))"
proof -
  have nr: "\<not> IsRetryableError ToLower (Some (New ''access denied''))"
    by code_simp
  have r1: "IsRetryableError ToLower (Some (New ''connection timeout''))"
    and r2: "IsRetryableError ToLower (Some (New ''i/o timeout''))"
    by code_simp+
  have m: "MaxRetries DefaultClientCopyRetryConfig = 3"
    by (simp add: DefaultClientCopyRetryConfig_def)
  have a: "WithRetry ToLower
        (\<lambda>k. if k < 1 then Some (New ''connection timeout'') else Some (New ''access denied''))
        (\<lambda>k. None) DefaultClientCopyRetryConfig = Some (New ''access denied'')"
    using WithRetry_non_retryable [of
        "\<lambda>k. if k < 1 then Some (New ''connection timeout'') else Some (New ''access denied'')"
        1 "New ''access denied''" ToLower "\<lambda>k. None" DefaultClientCopyRetryConfig] nr r1
    by (simp add: m)
  have b: "WithRetry ToLower
        (\<lambda>k. if k < 3 then Some (New ''i/o timeout'') else Some (New ''access denied''))
        (\<lambda>k. None) DefaultClientCopyRetryConfig
      = Some (RetriesExhausted 4 (Some (New ''access denied'')))"
    using WithRetry_non_retryable [of
        "\<lambda>k. if k < 3 then Some (New ''i/o timeout'') else Some (New ''access denied'')"
        3 "New ''access denied''" ToLower "\<lambda>k. None" DefaultClientCopyRetryConfig] r2
    by (simp add: m)
  have c: "WithRetry ToLower (\<lambda>k. Some (New ''connection timeout'')) (\<lambda>k. None)
        DefaultClientCopyRetryConfig
      = Some (RetriesExhausted 4 (Some (New ''connection timeout'')))"
    using WithRetry_non_retryable [of "\<lambda>k. Some (New ''connection timeout'')"
        3 "New ''connection timeout''" ToLower "\<lambda>k. None" DefaultClientCopyRetryConfig] r1
    by (simp add: m)
  from a b c show ?thesis by simp
qed

lemma jitter_bounds:
  assumes N: "0 < N" "f64 N = N" and rnd: "0 \<le> rnd" "rnd < 1"
  shows "f64 (3/4 * N) \<le> f64 (N + f64 (f64 (f64 (rnd - 1/2) * 2) * f64 (N * (1/4))))"
    and "f64 (N + f64 (f64 (f64 (rnd - 1/2) * 2) * f64 (N * (1/4)))) \<le> f64 (5/4 * N)"
proof -
  define jr where "jr = f64 (N * (1/4))"
  have "f64 (N * 2 powi (- 2)) = f64 N * 2 powi (- 2)" by (rule f64_scale)
  then have jr: "jr = N / 4" by (simp add: jr_def N(2) power_int_minus_divide)
  have jr0: "0 < jr" using N(1) jr by simp
  have jri: "f64 jr = jr" unfolding jr_def by (rule f64_idem)
  define a where "a = f64 (rnd - 1/2)"
  have "f64 (- (1/2)) \<le> a" unfolding a_def using rnd by (intro f64_mono) simp
  then have a1: "- (1/2) \<le> a" by (simp add: f64_minus f64_half)
  have "a \<le> f64 (1/2)" unfolding a_def using rnd by (intro f64_mono) simp
  then have a2: "a \<le> 1/2" by (simp add: f64_half)
  define b where "b = f64 (a * 2)"
  have "f64 (- 1) \<le> b" unfolding b_def using a1 by (intro f64_mono) simp
  then have b1: "- 1 \<le> b" by (simp add: f64_minus f64_half)
  have "b \<le> f64 1" unfolding b_def using a2 by (intro f64_mono) simp
  then have b2: "b \<le> 1" by (simp add: f64_half)
  define j where "j = f64 (b * jr)"
  have "- jr \<le> b * jr" using b1 jr0 mult_right_mono [of "- 1" b jr] by simp
  then have "f64 (- jr) \<le> j" unfolding j_def by (rule f64_mono)
  then have j1: "- jr \<le> j" by (simp add: f64_minus jri)
  have "b * jr \<le> jr" using b2 jr0 mult_right_mono [of b 1 jr] by simp
  then have "j \<le> f64 jr" unfolding j_def by (rule f64_mono)
  then have j2: "j \<le> jr" by (simp add: jri)
  have "3/4 * N \<le> N + j" using j1 jr by simp
  then show "f64 (3/4 * N) \<le> f64 (N + f64 (f64 (f64 (rnd - 1/2) * 2) * f64 (N * (1/4))))"
    unfolding j_def b_def a_def jr_def by (rule f64_mono)
  have "N + j \<le> 5/4 * N" using j2 jr by simp
  then show "f64 (N + f64 (f64 (f64 (rnd - 1/2) * 2) * f64 (N * (1/4)))) \<le> f64 (5/4 * N)"
    unfolding j_def b_def a_def jr_def by (rule f64_mono)
qed

lemma nominal_idem: "f64 (nominal pow rc attempt) = nominal pow rc attempt"
  unfolding nominal_def by (rule f64_idem)

text \<open>
  Claim C7, as stated, when the cap applies.  Default configuration (base 1 s, exponent 2,
  cap 30 s, jitter on), attempt 10, random value \<open>0.5\<close> (no jitter): the nominal delay is
  1024 s, the computed delay is the cap, 30 s, which is below \<open>0.75 \<times> 1024 s\<close>.
\<close>

theorem CalculateDelay_capped_below_nominal:
  "CalculateDelay Pow_whole (1/2) DefaultClientCopyRetryConfig 10 = 30000000000
   \<and> \<not> (3/4 * (of_int (BaseDelay DefaultClientCopyRetryConfig)
                * BackoffExponent DefaultClientCopyRetryConfig ^ 10)
          \<le> of_int (CalculateDelay Pow_whole (1/2) DefaultClientCopyRetryConfig 10))"
  by code_simp

text \<open>
  Claim C7, amended.  With jitter enabled, an attempt index \<open>\<ge> 0\<close>, any random value in
  \<open>[0, 1)\<close> and a cap of at most \<open>2 ^ 53\<close> nanoseconds in absolute value: when the nominal
  delay (the \<open>float64\<close> product of the base and \<open>math.Pow(exponent, attempt)\<close>) is
  positive, between \<open>2 powi (- 1000)\<close> and \<open>2 ^ 1000\<close> (well inside the range of
  \<open>float64\<close>), the delay, before its conversion to whole nanoseconds, lies between \<open>min(0.75\<sqdot>nominal, max)\<close> and
  \<open>min(1.25\<sqdot>nominal, max)\<close>, the two products rounded to \<open>float64\<close>; when the nominal
  delay is negative, the delay is snapped to the base, capped by \<open>max\<close>.  The result is that
  delay with its fraction discarded, and it never exceeds \<open>max\<close>.
\<close>

theorem CalculateDelay_bounds:
  assumes "Jitter rc" and "0 \<le> attempt" and "0 \<le> rnd" and "rnd < 1"
    and "\<bar>MaxDelay rc\<bar> \<le> 2 ^ 53"
  shows "(2 powi (- 1000) \<le> nominal pow rc attempt \<and> nominal pow rc attempt \<le> 2 ^ 1000 \<longrightarrow>
            min (f64 (3/4 * nominal pow rc attempt)) (of_int (MaxDelay rc))
              \<le> CalculateDelay_float pow rnd rc attempt
          \<and> CalculateDelay_float pow rnd rc attempt
              \<le> min (f64 (5/4 * nominal pow rc attempt)) (of_int (MaxDelay rc)))
       \<and> (nominal pow rc attempt < 0 \<longrightarrow>
            CalculateDelay_float pow rnd rc attempt
              = min (f64 (of_int (BaseDelay rc))) (of_int (MaxDelay rc)))
       \<and> CalculateDelay pow rnd rc attempt = toInt64 (CalculateDelay_float pow rnd rc attempt)
       \<and> CalculateDelay pow rnd rc attempt \<le> MaxDelay rc"
proof -
  define N where "N = nominal pow rc attempt"
  define M :: rat where "M = of_int (MaxDelay rc)"
  have fM: "f64 (of_int (MaxDelay rc)) = M"
    unfolding M_def using assms(5) by (rule f64_of_int)
  have pos: "min (f64 (3/4 * N)) M \<le> CalculateDelay_float pow rnd rc attempt
      \<and> CalculateDelay_float pow rnd rc attempt \<le> min (f64 (5/4 * N)) M" if N0: "0 < N"
  proof -
    define d where "d = f64 (N + f64 (f64 (f64 (rnd - 1/2) * 2) * f64 (N / 4)))"
    have Ni: "f64 N = N" unfolding N_def by (rule nominal_idem)
    have q: "N * (1/4) = N / 4" by simp
    note jb = jitter_bounds [OF N0 Ni assms(3,4), unfolded q, folded d_def]
    have "0 < f64 (3/4 * N)" using N0 by (intro f64_pos) simp
    with jb(1) have d0: "\<not> d < 0" by simp
    have "CalculateDelay_float pow rnd rc attempt = (if M < d then M else d)"
      using assms(1) N0 d0
      by (simp add: CalculateDelay_float_def Let_def N_def [symmetric] d_def [symmetric] fM)
    then have D: "CalculateDelay_float pow rnd rc attempt = min d M" by (simp add: min_def)
    show ?thesis unfolding D using jb by (auto simp: min_def)
  qed
  have neg: "CalculateDelay_float pow rnd rc attempt = min (f64 (of_int (BaseDelay rc))) M"
    if "N < 0"
    using that
    by (simp add: CalculateDelay_float_def Let_def N_def [symmetric] fM min_def)
  have le: "CalculateDelay_float pow rnd rc attempt \<le> M"
    by (simp add: CalculateDelay_float_def Let_def fM)
  have c: "CalculateDelay pow rnd rc attempt = toInt64 (CalculateDelay_float pow rnd rc attempt)"
    using assms(2) by (simp add: CalculateDelay_def)
  have cap: "CalculateDelay pow rnd rc attempt \<le> MaxDelay rc"
    unfolding c using le unfolding M_def by (rule toInt64_le)
  have N0: "0 < N" if "2 powi (- 1000) \<le> N"
    using that zero_less_power_int [of "2::rat" "- 1000"] by linarith
  from pos neg c cap N0 show ?thesis unfolding N_def M_def by blast
qed

theorem CalculateDelay_bounds_witness:
  "1500000000 \<le> CalculateDelay_float Pow_whole (1/4) DefaultClientCopyRetryConfig 1
   \<and> CalculateDelay_float Pow_whole (1/4) DefaultClientCopyRetryConfig 1 \<le> 2500000000
   \<and> CalculateDelay Pow_whole (1/4) DefaultClientCopyRetryConfig 1 \<le> 30000000000
   \<and> CalculateDelay_float Pow_whole (1/4)
        \<lparr>MaxRetries = 3, BaseDelay = 1000000000, MaxDelay = 30000000000,
         BackoffExponent = - 2, Jitter = True\<rparr> 1 = 1000000000"
proof -
  define neg where "neg = \<lparr>MaxRetries = 3, BaseDelay = 1000000000, MaxDelay = 30000000000,
         BackoffExponent = - 2, Jitter = True\<rparr>"
  have j: "Jitter DefaultClientCopyRetryConfig" "Jitter neg"
    by (simp_all add: DefaultClientCopyRetryConfig_def neg_def)
  have m: "MaxDelay DefaultClientCopyRetryConfig = 30000000000" "MaxDelay neg = 30000000000"
    "BaseDelay neg = 1000000000"
    by (simp_all add: DefaultClientCopyRetryConfig_def neg_def)
  have n: "nominal Pow_whole DefaultClientCopyRetryConfig 1 = 2000000000"
    by code_simp
  have n': "nominal Pow_whole neg 1 = - 2000000000"
    unfolding neg_def by code_simp
  have f: "f64 1500000000 = 1500000000" "f64 2500000000 = 2500000000"
    "f64 1000000000 = 1000000000"
    by code_simp+
  have a: "(0::int) \<le> 1" "(0::rat) \<le> 1/4" "(1/4::rat) < 1" by simp_all
  have c: "\<bar>30000000000 :: int\<bar> \<le> 2 ^ 53" by simp
  have rg: "2 powi (- 1000) \<le> (2000000000 :: rat)" "(2000000000 :: rat) \<le> 2 ^ 1000"
    by (simp_all add: power_int_minus_divide)
  from CalculateDelay_bounds [OF j(1) a, of Pow_whole] c rg
       CalculateDelay_bounds [OF j(2) a, of Pow_whole] c
  show ?thesis
    unfolding neg_def [symmetric] n n' by (simp add: m f)
qed

section \<open>Properties of the disk-space guard\<close>

lemma f64_1_2: "f64 (6/5) = 6/5 - 1 / (5 * 2 ^ 52)"
  by code_simp

lemma ilog2_le:
  assumes "0 < x" "x < 2 powi k"
  shows "ilog2 x < k"
proof (rule ccontr)
  assume "\<not> ilog2 x < k"
  then have "k \<le> ilog2 x" by simp
  then have "(2::rat) powi k \<le> 2 powi (ilog2 x)"
    by (intro power_int_increasing) simp_all
  with ilog2_bounds(1) [OF assms(1)] assms(2) show False by linarith
qed

text \<open>
  What the guard requires: for a size \<open>s\<close> with \<open>0 \<le> s \<le> 2 ^ 50\<close> the count
  \<open>int64(float64(s) * 1.2)\<close> is \<open>6 * s div 5\<close>, the product with its fraction discarded.
\<close>

lemma requiredSpace_floor:
  assumes "0 \<le> s" "s \<le> 2 ^ 50"
  shows "requiredSpace s = (6 * s) div 5"
proof (cases "s = 0")
  case True
  then show ?thesis by (simp add: requiredSpace_def f64_zero toInt64_def)
next
  case False
  with assms have s0: "0 < s" by simp
  define S :: rat where "S = of_int s"
  have S0: "0 < S" using s0 by (simp add: S_def)
  have S50: "S \<le> 2 ^ 50"
    unfolding S_def using assms(2) by (metis of_int_le_iff of_int_numeral of_int_power)
  have fs: "f64 (of_int s) = S"
    unfolding S_def using assms by (intro f64_of_int) simp
  define x :: rat where "x = S * (6/5 - 1 / (5 * 2 ^ 52))"
  have rs: "requiredSpace s = toInt64 (f64 x)"
    by (simp add: requiredSpace_def fs f64_1_2 x_def)
  define m where "m = (6 * s) div 5"
  define r where "r = (6 * s) mod 5"
  have mr: "6 * s = 5 * m + r" and r: "0 \<le> r" "r < 5"
    by (simp_all add: m_def r_def)
  have "6 * S = 5 * of_int m + of_int r"
    unfolding S_def using mr by (metis of_int_add of_int_mult of_int_numeral)
  then have xm: "x = of_int m + of_int r / 5 - S / (5 * 2 ^ 52)"
    by (simp add: x_def field_simps)
  have x0: "0 < x" using S0 by (simp add: x_def)
  have xlo: "4/5 * S \<le> x" using S0 by (simp add: x_def field_simps)
  have "x < 2 ^ 51" using S0 S50 by (simp add: x_def field_simps)
  then have "x < 2 powi 51" by simp
  from ilog2_le [OF x0 this] have e50: "ilog2 x \<le> 50" by simp
  have m0: "0 \<le> m" using s0 by (simp add: m_def)
  show ?thesis
  proof (cases "r = 0")
    case True
    define j where "j = nat (52 - ilog2 x)"
    have j: "int j = 52 - ilog2 x" using e50 by (simp add: j_def)
    have "ulp x = 2 powi (- int j)" using x0 j by (simp add: ulp_def)
    then have u: "ulp x = 1 / 2 ^ j" by (simp add: power_int_minus_divide)
    have mu: "of_int (m * 2 ^ j) * ulp x = of_int m" by (simp add: u)
    have "x < 2 powi (ilog2 x + 1)" by (rule ilog2_bounds(2) [OF x0])
    also have "\<dots> = ulp x * 2 ^ 53"
      using x0 by (simp add: ulp_def power_int_diff power_int_add)
    finally have xu: "x / 2 ^ 54 < ulp x / 2" by simp
    have "\<bar>x - of_int m\<bar> = S / (5 * 2 ^ 52)" using True S0 by (simp add: xm)
    also have "\<dots> \<le> x / 2 ^ 54" using xlo by simp
    also note xu
    finally have "\<bar>x - of_int (m * 2 ^ j) * ulp x\<bar> < ulp x / 2" by (simp only: mu)
    from f64_nearest [OF x0 this] have "f64 x = of_int m" by (simp only: mu)
    then show ?thesis using m0 by (simp add: rs toInt64_def m_def)
  next
    case False
    with r have r1: "1 \<le> r" "r \<le> 4" by simp_all
    then have R: "(1::rat) \<le> of_int r" "of_int r \<le> (4::rat)" by simp_all
    have "ulp x \<le> 2 powi (- 2)"
      using e50 x0 unfolding ulp_def by (intro power_int_increasing) simp_all
    then have u: "ulp x \<le> 1/4" by (simp add: power_int_minus_divide)
    have err: "\<bar>f64 x - x\<bar> \<le> 1/8" using f64_err [OF x0] u by linarith
    have "S / (5 * 2 ^ 52) \<le> 1/20" using S50 by simp
    then have "of_int m + 3/20 \<le> x" "x \<le> of_int m + 4/5"
      using R S0 by (simp_all add: xm)
    with err have "of_int m \<le> f64 x" "f64 x < of_int m + 1"
      by linarith+
    then have "\<lfloor>f64 x\<rfloor> = m" by linarith
    moreover have "0 \<le> f64 x" using \<open>of_int m \<le> f64 x\<close> m0
      by (meson of_int_0_le_iff order_trans)
    ultimately show ?thesis by (simp add: rs toInt64_def m_def)
  qed
qed

text \<open>
  Claim C4.  The claim takes the required count to be the ceiling of \<open>s \<times> 1.2\<close>, which is
  what "at least 20% more space than the file size" asks of a whole number of bytes.  The
  guard computes \<open>int64(float64(s) * 1.2)\<close>, which discards the fraction.  At size 1 the
  ceiling is 2 and the guard requires 1, so one free byte passes.  At size 8947848534 the
  ceiling is 10737418241 and the guard requires 10737418240, so the 10 GiB that
  \<open>getAvailableDiskSpace\<close> reports pass, where the claim expects the insufficient-space
  error.
\<close>

theorem validateDiskSpace_not_ceiling:
  "\<lceil>(of_int 1 :: rat) * 12 / 10\<rceil> = 2
   \<and> requiredSpace 1 = 1
   \<and> validateDiskSpace None (Inr 1) (Inr 1) = None
   \<and> \<lceil>(of_int 8947848534 :: rat) * 12 / 10\<rceil> = 10737418241
   \<and> requiredSpace 8947848534 = 10737418240
   \<and> validateDiskSpace None (Inr 8947848534) (Inr (10 * 1024 * 1024 * 1024)) = None"
  by code_simp

text \<open>
  Claim C5.  On Linux, a platform with \<open>statfs\<close>: the staging directory \<open>/tmp\<close> exists, the
  probe file can be created, and the volume has \<open>freeBytes\<close> bytes free, whatever
  \<open>freeBytes\<close> is.  The guard with the switch on \<open>runtime.GOOS\<close> answers 1 GiB, the guard of
  \<open>command/disk_space_validator.go\<close> answers 10 GiB: a constant, and not the free-byte
  count of the volume.
\<close>

theorem getAvailableDiskSpace_linux_constant:
  "getAvailableDiskSpace_GOOS
      \<lparr>GOOS = ''linux'', IsDir = (\<lambda>p. p = ''/tmp''), filepath_Dir = (\<lambda>p. ''/''),
       TempDir = ''/tmp'', CreateTemp = (\<lambda>p. None),
       FreeBytesAvailable = (\<lambda>p. Inr freeBytes)\<rparr> ''/tmp''
     = Some (Inr 1073741824)
   \<and> getAvailableDiskSpace
      \<lparr>GOOS = ''linux'', IsDir = (\<lambda>p. p = ''/tmp''), filepath_Dir = (\<lambda>p. ''/''),
       TempDir = ''/tmp'', CreateTemp = (\<lambda>p. None),
       FreeBytesAvailable = (\<lambda>p. Inr freeBytes)\<rparr> ''/tmp''
     = Some (Inr 10737418240)"
proof -
  have found: "findExistingDir
      \<lparr>GOOS = ''linux'', IsDir = (\<lambda>p. p = ''/tmp''), filepath_Dir = (\<lambda>p. ''/''),
       TempDir = ''/tmp'', CreateTemp = (\<lambda>p. None),
       FreeBytesAvailable = (\<lambda>p. Inr freeBytes)\<rparr> ''/tmp'' = Some ''/tmp''"
    by (subst findExistingDir.simps) simp
  show ?thesis
    by (simp add: getAvailableDiskSpace_GOOS_def getAvailableDiskSpace_def found
        getUnixDiskSpace_def getFallbackDiskSpace_def)
qed

section \<open>Properties of the bandwidth limiter\<close>

text \<open>
  Claim C6.  \<open>"100MB/s"\<close> parses to 104857600 bytes per second, in lower case as well, and
  a decimal part is accepted (\<open>"1.5GB/s"\<close>).  With a space between the
  number and the unit, \<open>"100 MB/s"\<close>, the text handed to \<open>strconv.ParseFloat\<close> is
  \<open>"100 "\<close>, and the parser returns an error instead of the same value.  The validator's
  pattern does match the string with the space; \<open>ValidateBandwidthFormat\<close> then fails in
  the parser.
\<close>

theorem parseBandwidthLimit_space_rejected:
  "parseBandwidthLimit ''100MB/s'' = Inr 104857600
   \<and> parseBandwidthLimit ''100mb/s'' = Inr 104857600
   \<and> parseBandwidthLimit ''1.5GB/s'' = Inr 1610612736
   \<and> parseBandwidthLimit ''100 MB/s''
       = Inl (Errorf ''invalid number in bandwidth limit: ''
               (New (''strconv.ParseFloat: parsing '' @ [CHR 0x22] @ ''100 '' @ [CHR 0x22]
                     @ '': invalid syntax'')))
   \<and> formatRegex_MatchString (TrimSpace (ToUpper ''100 MB/s''))
   \<and> ValidateBandwidthFormat ''100 MB/s''
       = Some (Errorf ''failed to parse bandwidth limit: ''
                (Errorf ''invalid number in bandwidth limit: ''
                  (New (''strconv.ParseFloat: parsing '' @ [CHR 0x22] @ ''100 '' @ [CHR 0x22]
                        @ '': invalid syntax''))))"
  by code_simp

text \<open>
  Claim C10.  The limiter built from the empty string is built without error and is
  disabled.  For a disabled limiter, whatever the context and whatever \<open>WaitN\<close> would
  answer, \<open>Wait\<close> returns nil for every byte count, and the read and write wrappers return
  the count and the error of the wrapped stream unchanged.
\<close>

theorem disabled_limiter_passthrough:
  "NewBandwidthLimiter '''' = Inr \<lparr>limiter = None, enabled = False\<rparr>
   \<and> (\<not> enabled bl \<longrightarrow>
        Wait WaitN bl ctx n = None
      \<and> LimitedReader_Read WaitN \<lparr>lr_reader = rd, lr_limiter = bl, lr_ctx = ctx\<rparr> p = rd p
      \<and> LimitedWriter_Write WaitN \<lparr>lw_writer = wr, lw_limiter = bl, lw_ctx = ctx\<rparr> p = wr p)"
  by (simp add: NewBandwidthLimiter_def Wait_def LimitedReader_Read_def
      LimitedWriter_Write_def split: prod.split)

theorem disabled_limiter_passthrough_witness:
  "Wait (\<lambda>l c k. Some (New ''context canceled'')) \<lparr>limiter = None, enabled = False\<rparr> () 1000 = None
   \<and> LimitedReader_Read (\<lambda>l c k. Some (New ''context canceled''))
        \<lparr>lr_reader = (\<lambda>p. (24, None)), lr_limiter = \<lparr>limiter = None, enabled = False\<rparr>,
         lr_ctx = ()\<rparr> [] = (24, None)
   \<and> LimitedWriter_Write (\<lambda>l c k. Some (New ''context canceled''))
        \<lparr>lw_writer = (\<lambda>p. (int (length p), None)),
         lw_limiter = \<lparr>limiter = None, enabled = False\<rparr>, lw_ctx = ()\<rparr> [1, 2, 3] = (3, None)"
proof -
  have off: "\<not> enabled \<lparr>limiter = None, enabled = False\<rparr>" by simp
  from disabled_limiter_passthrough [of "\<lparr>limiter = None, enabled = False\<rparr>"
      "\<lambda>l c k. Some (New ''context canceled'')" "()" 1000 "\<lambda>p. (24, None)" "[]"
      "\<lambda>p. (int (length p), None)"] off
  have r: "Wait (\<lambda>l c k. Some (New ''context canceled'')) \<lparr>limiter = None, enabled = False\<rparr> () 1000 = None"
    "LimitedReader_Read (\<lambda>l c k. Some (New ''context canceled''))
        \<lparr>lr_reader = (\<lambda>p. (24, None)), lr_limiter = \<lparr>limiter = None, enabled = False\<rparr>,
         lr_ctx = ()\<rparr> [] = (24, None)"
    by simp_all
  from disabled_limiter_passthrough [of "\<lparr>limiter = None, enabled = False\<rparr>"
      "\<lambda>l c k. Some (New ''context canceled'')" "()" 1000 "\<lambda>p. (24, None)" "[1, 2, 3]"
      "\<lambda>p. (int (length p), None)"] off
  have w: "LimitedWriter_Write (\<lambda>l c k. Some (New ''context canceled''))
        \<lparr>lw_writer = (\<lambda>p. (int (length p), None)),
         lw_limiter = \<lparr>limiter = None, enabled = False\<rparr>, lw_ctx = ()\<rparr> [1, 2, 3] = (3, None)"
    by simp
  from r w show ?thesis by simp
qed

end
